theory Spec2Isabelle
  imports Main "HOL-Library.Sublist" "HOL-Library.Word"
begin

section \<open>Asana integration: webhooks, reconciler, reporter and text formatter\<close>

text \<open>
  A shallow embedding of \<^verbatim>\<open>openhands/integrations/asana\<close>. Python strings are modelled
  as \<^typ>\<open>string\<close>: one \<^typ>\<open>char\<close> per code point, for the code points 0..255. Raw bytes
  are lists of 8-bit words. Exceptions are values of the type \<open>py_error\<close>.
\<close>

subsection \<open>Characters\<close>

type_synonym byte = "8 word"

datatype py_error = TypeError | ValueError | OtherException

definition nl :: char where
  "nl = CHR 0x0A"

definition dquote :: char where
  "dquote = CHR 0x22"

definition squote :: char where
  "squote = CHR 0x27"

text \<open>\<^verbatim>\<open>str.isspace\<close>, which is also the class \<^verbatim>\<open>\s\<close> of \<^verbatim>\<open>re\<close> on \<^verbatim>\<open>str\<close> patterns.\<close>

definition is_space :: "char \<Rightarrow> bool" where
  "is_space c = (let n = (of_char c :: nat) in
     (9 \<le> n \<and> n \<le> 13) \<or> (28 \<le> n \<and> n \<le> 32) \<or> n = 133 \<or> n = 160)"

definition is_digit :: "char \<Rightarrow> bool" where
  "is_digit c = (let n = (of_char c :: nat) in 48 \<le> n \<and> n \<le> 57)"

definition is_ascii :: "char \<Rightarrow> bool" where
  "is_ascii c = ((of_char c :: nat) < 128)"

text \<open>Lower-casing, as \<^verbatim>\<open>re.IGNORECASE\<close> compares characters.\<close>

definition py_lower :: "char \<Rightarrow> char" where
  "py_lower c = (let n = (of_char c :: nat) in
     if (65 \<le> n \<and> n \<le> 90) \<or> (192 \<le> n \<and> n \<le> 222 \<and> n \<noteq> 215)
     then char_of (n + 32) else c)"

definition ci_eq :: "char \<Rightarrow> char \<Rightarrow> bool" where
  "ci_eq a b = (py_lower a = py_lower b)"

text \<open>\<^verbatim>\<open>str.strip()\<close> with no argument.\<close>

definition strip :: "string \<Rightarrow> string" where
  "strip s = rev (dropWhile is_space (rev (dropWhile is_space s)))"

subsection \<open>Webhook signature (\<^verbatim>\<open>asana_webhooks.py\<close>)\<close>

text \<open>\<^verbatim>\<open>secret.encode('utf-8')\<close> on code points below 256.\<close>

definition utf8_encode_char :: "char \<Rightarrow> byte list" where
  "utf8_encode_char c = (let n = (of_char c :: nat) in
     if n < 128 then [word_of_nat n]
     else [word_of_nat (192 + n div 64), word_of_nat (128 + n mod 64)])"

definition utf8_encode :: "string \<Rightarrow> byte list" where
  "utf8_encode s = concat (map utf8_encode_char s)"

definition hex_digit :: "nat \<Rightarrow> char" where
  "hex_digit n = ''0123456789abcdef'' ! (n mod 16)"

definition hex_byte :: "byte \<Rightarrow> string" where
  "hex_byte b = [hex_digit (unat b div 16), hex_digit (unat b mod 16)]"

text \<open>\<^verbatim>\<open>.hexdigest()\<close>: the digest bytes in lower-case hexadecimal.\<close>

definition hexdigest :: "byte list \<Rightarrow> string" where
  "hexdigest bs = concat (map hex_byte bs)"

text \<open>
  \<^verbatim>\<open>hmac.compare_digest\<close> on two \<^verbatim>\<open>str\<close> arguments: it raises \<^verbatim>\<open>TypeError\<close> when
  either holds a non-ASCII character, and otherwise compares them.
\<close>

definition compare_digest :: "string \<Rightarrow> string \<Rightarrow> py_error + bool" where
  "compare_digest a b =
     (if list_all is_ascii a \<and> list_all is_ascii b then Inr (a = b) else Inl TypeError)"

text \<open>
  The keyed hash \<^verbatim>\<open>hmac.new(key, msg, hashlib.sha256).digest()\<close> is a library function;
  it is the parameter \<open>mac\<close>, taking the key and the message.
\<close>

definition verify_webhook_signature ::
  "(byte list \<Rightarrow> byte list \<Rightarrow> byte list) \<Rightarrow> byte list \<Rightarrow> string \<Rightarrow> string \<Rightarrow> py_error + bool" where
  "verify_webhook_signature mac body signature secret =
     (let computed = hexdigest (mac (utf8_encode secret) body)
      in compare_digest computed signature)"

text \<open>The hex digest of \<open>body\<close> under \<open>secret\<close>, as Asana computes the header.\<close>

definition hmac_sha256_hex ::
  "(byte list \<Rightarrow> byte list \<Rightarrow> byte list) \<Rightarrow> string \<Rightarrow> byte list \<Rightarrow> string" where
  "hmac_sha256_hex mac secret body = hexdigest (mac (utf8_encode secret) body)"

lemma hex_digit_ascii: "is_ascii (hex_digit n)"
proof -
  have all: "\<forall>c \<in> set ''0123456789abcdef''. is_ascii c"
    by (simp add: is_ascii_def)
  have "n mod 16 < length ''0123456789abcdef''" by simp
  then have "''0123456789abcdef'' ! (n mod 16) \<in> set ''0123456789abcdef''"
    by (rule nth_mem)
  with all show ?thesis
    unfolding hex_digit_def by blast
qed

lemma hexdigest_ascii: "list_all is_ascii (hexdigest bs)"
  by (induction bs) (simp_all add: hexdigest_def hex_byte_def hex_digit_ascii)

text \<open>
  Claim C6. \<^verbatim>\<open>verify_webhook_signature(body, signature, secret)\<close> returns true exactly
  when the signature is the hex HMAC digest of the body under the secret; a body signed
  with a secret verifies under it, and a signature made for another secret or body, whose
  digest differs, makes it return false.
\<close>

theorem verify_webhook_signature_hmac:
  "(verify_webhook_signature mac body signature secret = Inr True
      \<longleftrightarrow> signature = hmac_sha256_hex mac secret body)
   \<and> verify_webhook_signature mac body (hmac_sha256_hex mac secret body) secret = Inr True
   \<and> (hmac_sha256_hex mac secret' body' \<noteq> hmac_sha256_hex mac secret body
      \<longrightarrow> verify_webhook_signature mac body' (hmac_sha256_hex mac secret body) secret'
            = Inr False)"
  using hexdigest_ascii [of "mac (utf8_encode secret) body"]
    hexdigest_ascii [of "mac (utf8_encode secret') body'"]
  by (auto simp: verify_webhook_signature_def hmac_sha256_hex_def compare_digest_def Let_def)

theorem verify_webhook_signature_hmac_witness:
  "verify_webhook_signature (\<lambda>k m. k @ m) [0x41] ''6b41'' ''k'' = Inr True
   \<and> verify_webhook_signature (\<lambda>k m. k @ m) [0x42] ''6b41'' ''k'' = Inr False
   \<and> verify_webhook_signature (\<lambda>k m. k @ m) [0x41] ''6b41'' ''j'' = Inr False"
  using verify_webhook_signature_hmac [of "\<lambda>k m. k @ m" "[0x41]" "''6b41''" "''k''" "''k''" "[0x42]"]
    verify_webhook_signature_hmac [of "\<lambda>k m. k @ m" "[0x41]" "''6b41''" "''k''" "''j''" "[0x41]"]
  by (simp add: hmac_sha256_hex_def hexdigest_def hex_byte_def hex_digit_def
      utf8_encode_def utf8_encode_char_def)

subsection \<open>Webhook events (\<^verbatim>\<open>asana_models.py\<close>)\<close>

record AsanaResource =
  gid :: string
  resource_type :: "string option"
  name :: "string option"

text \<open>A \<^verbatim>\<open>datetime\<close> is kept as the text that \<^verbatim>\<open>str()\<close> gives for it.\<close>

type_synonym datetime = string

record WebhookEvent =
  created_at :: "datetime option"
  action :: string
  resource :: AsanaResource
  parent :: "AsanaResource option"

text \<open>Formatting an optional value in an f-string: \<^verbatim>\<open>None\<close> prints as \<^verbatim>\<open>None\<close>.\<close>

definition fmt_opt :: "string option \<Rightarrow> string" where
  "fmt_opt v = (case v of None \<Rightarrow> ''None'' | Some s \<Rightarrow> s)"

subsection \<open>The webhook endpoint (\<^verbatim>\<open>asana_webhook\<close>)\<close>

record endpoint_state =
  webhook_secrets :: "string \<rightharpoonup> string"
  background_tasks :: "WebhookEvent list"

datatype http_result =
    HandshakeEcho string
  | HTTPException nat string
  | HeartbeatReceived
  | Queued nat
  | Unhandled py_error

text \<open>Truth value of an optional string, as in \<^verbatim>\<open>if x_hook_secret:\<close>.\<close>

definition truthy :: "string option \<Rightarrow> bool" where
  "truthy v = (case v of None \<Rightarrow> False | Some s \<Rightarrow> s \<noteq> [])"

text \<open>
  Lines 144--163: parse the payload, answer a heartbeat, queue every event. The JSON
  decoder with the \<^verbatim>\<open>WebhookPayload\<close> validation is the parameter \<open>parse\<close>; \<open>None\<close> is
  any exception it raises.
\<close>

definition parse_and_queue ::
  "(byte list \<Rightarrow> WebhookEvent list option) \<Rightarrow> endpoint_state \<Rightarrow> byte list
    \<Rightarrow> http_result \<times> endpoint_state" where
  "parse_and_queue parse st body =
     (case parse body of
        None \<Rightarrow> (HTTPException 400 ''Invalid payload'', st)
      | Some events \<Rightarrow>
          if events = [] then (HeartbeatReceived, st)
          else (Queued (length events),
                st\<lparr>background_tasks := background_tasks st @ events\<rparr>))"

text \<open>
  The handler. \<open>settings_secret\<close> is what \<^verbatim>\<open>get_webhook_secret_from_settings()\<close> returns.
  An exception of \<^verbatim>\<open>verify_webhook_signature\<close> is not caught by the handler.
\<close>

definition asana_webhook ::
  "(byte list \<Rightarrow> byte list \<Rightarrow> byte list) \<Rightarrow> (byte list \<Rightarrow> WebhookEvent list option)
    \<Rightarrow> string option \<Rightarrow> endpoint_state \<Rightarrow> byte list \<Rightarrow> string option \<Rightarrow> string option
    \<Rightarrow> http_result \<times> endpoint_state" where
  "asana_webhook mac parse settings_secret st body x_hook_secret x_hook_signature =
     (if truthy x_hook_secret then
        (HandshakeEcho (the x_hook_secret),
         st\<lparr>webhook_secrets := (webhook_secrets st)(''default'' \<mapsto> the x_hook_secret)\<rparr>)
      else if truthy x_hook_signature then
        (let stored_secret =
               (case webhook_secrets st ''default'' of None \<Rightarrow> [] | Some v \<Rightarrow> v);
             loaded = (if stored_secret = []
                       then (if truthy settings_secret then the settings_secret else [])
                       else stored_secret);
             st1 = (if stored_secret = [] \<and> loaded \<noteq> []
                    then st\<lparr>webhook_secrets := (webhook_secrets st)(''default'' \<mapsto> loaded)\<rparr>
                    else st)
         in if loaded = [] then (HTTPException 401 ''No webhook secret configured'', st1)
            else (case verify_webhook_signature mac body (the x_hook_signature) loaded of
                    Inl e \<Rightarrow> (Unhandled e, st1)
                  | Inr ok \<Rightarrow>
                      if \<not> ok then (HTTPException 401 ''Invalid signature'', st1)
                      else parse_and_queue parse st1 body))
      else parse_and_queue parse st body)"

subsection \<open>Background processing and deduplication\<close>

text \<open>
  \<^verbatim>\<open>_processed_events\<close> is a Python set of strings: a list without duplicates here.
  \<^verbatim>\<open>set.pop()\<close> removes an arbitrary element; the choice is the parameter \<open>pick\<close>, which
  gives the position of the element to remove.
\<close>

datatype reconciler_call =
    ProcessTaskAssignment string
  | ProcessStoryMention string "string option"

record processor_state =
  processed_events :: "string list"
  invoked :: "reconciler_call list"

definition MAX_PROCESSED_EVENTS :: nat where
  "MAX_PROCESSED_EVENTS = 1000"

text \<open>\<^verbatim>\<open>int(_MAX_PROCESSED_EVENTS * 0.9)\<close>, which is 900.\<close>

definition cleanup_target :: nat where
  "cleanup_target = 900"

definition set_add :: "string \<Rightarrow> string list \<Rightarrow> string list" where
  "set_add k s = (if k \<in> set s then s else k # s)"

definition set_pop :: "(string list \<Rightarrow> nat) \<Rightarrow> string list \<Rightarrow> string list" where
  "set_pop pick s =
     (if s = [] then s
      else (let i = pick s mod length s in take i s @ drop (Suc i) s))"

fun pop_times :: "(string list \<Rightarrow> nat) \<Rightarrow> nat \<Rightarrow> string list \<Rightarrow> string list" where
  "pop_times pick 0 s = s"
| "pop_times pick (Suc n) s = pop_times pick n (set_pop pick s)"

definition process_task_event ::
  "(string list \<Rightarrow> nat) \<Rightarrow> processor_state \<Rightarrow> WebhookEvent \<Rightarrow> processor_state" where
  "process_task_event pick st event =
     (let task_gid = gid (resource event) in
      if resource_type (resource event) \<noteq> Some ''task'' then st
      else if action event \<noteq> ''changed'' then st
      else
        (let dedup_key = ''task-'' @ task_gid @ ''-'' @ fmt_opt (created_at event) in
         if dedup_key \<in> set (processed_events st) then st
         else
           (let added = set_add dedup_key (processed_events st);
                cleaned =
                  (if length added > MAX_PROCESSED_EVENTS
                   then pop_times pick (length added - cleanup_target) added
                   else added)
            in st\<lparr>processed_events := cleaned,
                  invoked := invoked st @ [ProcessTaskAssignment task_gid]\<rparr>)))"

definition process_story_event :: "processor_state \<Rightarrow> WebhookEvent \<Rightarrow> processor_state" where
  "process_story_event st event =
     (let story_gid = gid (resource event) in
      if action event \<noteq> ''added'' then st
      else
        (let dedup_key = ''story-'' @ story_gid @ ''-'' @ fmt_opt (created_at event) in
         if dedup_key \<in> set (processed_events st) then st
         else
           (let parent_gid = (case parent event of None \<Rightarrow> None | Some p \<Rightarrow> Some (gid p))
            in st\<lparr>processed_events := set_add dedup_key (processed_events st),
                  invoked := invoked st @ [ProcessStoryMention story_gid parent_gid]\<rparr>)))"

definition process_webhook_event ::
  "(string list \<Rightarrow> nat) \<Rightarrow> processor_state \<Rightarrow> WebhookEvent \<Rightarrow> processor_state" where
  "process_webhook_event pick st event =
     (if resource_type (resource event) = Some ''task'' then process_task_event pick st event
      else if resource_type (resource event) = Some ''story'' then process_story_event st event
      else st)"

text \<open>The wrapper catches every exception, so it is the same state transformer.\<close>

definition process_webhook_event_safe ::
  "(string list \<Rightarrow> nat) \<Rightarrow> processor_state \<Rightarrow> WebhookEvent \<Rightarrow> processor_state" where
  "process_webhook_event_safe pick st event = process_webhook_event pick st event"

text \<open>Events for the examples: numeric gids 1, 11, 111, ...\<close>

definition ones_gid :: "nat \<Rightarrow> string" where
  "ones_gid n = replicate (Suc n) (CHR ''1'')"

definition task_changed :: "string \<Rightarrow> datetime \<Rightarrow> WebhookEvent" where
  "task_changed g t =
     \<lparr>created_at = Some t, action = ''changed'',
      resource = \<lparr>gid = g, resource_type = Some ''task'', name = None\<rparr>, parent = None\<rparr>"

definition story_added :: "string \<Rightarrow> datetime \<Rightarrow> WebhookEvent" where
  "story_added g t =
     \<lparr>created_at = Some t, action = ''added'',
      resource = \<lparr>gid = g, resource_type = Some ''story'', name = None\<rparr>, parent = None\<rparr>"

definition initial_processor :: processor_state where
  "initial_processor = \<lparr>processed_events = [], invoked = []\<rparr>"

definition pop_newest :: "string list \<Rightarrow> nat" where
  "pop_newest s = 0"

text \<open>
  Claim C3. A POST with neither header is never answered 401: no signature is checked,
  the body is parsed, and the events of a payload are queued, as they are for a delivery
  whose signature verifies against the stored secret.
\<close>

theorem asana_webhook_unsigned:
  "(\<forall>detail. fst (asana_webhook mac parse settings_secret st body None None)
        \<noteq> HTTPException 401 detail)
   \<and> asana_webhook mac parse settings_secret st body None None =
       (case parse body of
          None \<Rightarrow> (HTTPException 400 ''Invalid payload'', st)
        | Some events \<Rightarrow>
            if events = [] then (HeartbeatReceived, st)
            else (Queued (length events),
                  st\<lparr>background_tasks := background_tasks st @ events\<rparr>))
   \<and> (webhook_secrets st ''default'' = Some secret \<and> secret \<noteq> [] \<and> signature \<noteq> []
        \<and> verify_webhook_signature mac body signature secret = Inr True
      \<longrightarrow> asana_webhook mac parse settings_secret st body None (Some signature)
          = asana_webhook mac parse settings_secret st body None None)"
  by (auto simp: asana_webhook_def parse_and_queue_def truthy_def Let_def
      split: option.splits)

theorem asana_webhook_unsigned_witness:
  "asana_webhook (\<lambda>k m. k @ m) (\<lambda>b. Some [task_changed ''7'' ''t''])
      None \<lparr>webhook_secrets = [''default'' \<mapsto> ''k''], background_tasks = []\<rparr> [0x41] None None
    = (Queued 1, \<lparr>webhook_secrets = [''default'' \<mapsto> ''k''],
                  background_tasks = [task_changed ''7'' ''t'']\<rparr>)
   \<and> asana_webhook (\<lambda>k m. k @ m) (\<lambda>b. Some [task_changed ''7'' ''t''])
      None \<lparr>webhook_secrets = [''default'' \<mapsto> ''k''], background_tasks = []\<rparr> [0x41] None
      (Some ''6b41'')
    = (Queued 1, \<lparr>webhook_secrets = [''default'' \<mapsto> ''k''],
                  background_tasks = [task_changed ''7'' ''t'']\<rparr>)"
proof -
  let ?st = "\<lparr>webhook_secrets = [''default'' \<mapsto> ''k''], background_tasks = []\<rparr>"
  have v: "verify_webhook_signature (\<lambda>k m. k @ m) [0x41] ''6b41'' ''k'' = Inr True"
    by (simp add: verify_webhook_signature_def compare_digest_def hexdigest_def hex_byte_def
        hex_digit_def utf8_encode_def utf8_encode_char_def is_ascii_def)
  show ?thesis
    using v asana_webhook_unsigned [of "\<lambda>k m. k @ m" "\<lambda>b. Some [task_changed ''7'' ''t'']"
        None ?st "[0x41]" "''k''" "''6b41''"]
    by simp
qed

subsection \<open>Deduplication: what the processed-events set does\<close>

lemma pop_times_newest: "pop_times pop_newest n s = drop n s"
proof (induction n arbitrary: s)
  case 0
  show ?case by simp
next
  case (Suc n)
  have "set_pop pop_newest s = drop 1 s"
    by (cases s) (simp_all add: set_pop_def pop_newest_def)
  with Suc show ?case by simp
qed

lemma task_key_inj:
  "''task-'' @ g @ ''-'' @ t = ''task-'' @ g' @ ''-'' @ t \<longleftrightarrow> g = g'"
  by auto

lemma story_key_inj:
  "''story-'' @ g @ ''-'' @ t = ''story-'' @ g' @ ''-'' @ t \<longleftrightarrow> g = g'"
  by auto

lemma process_fresh_task:
  assumes "''task-'' @ g @ ''-'' @ t \<notin> set (processed_events st)"
    and "length (processed_events st) < MAX_PROCESSED_EVENTS"
  shows "process_webhook_event_safe pick st (task_changed g t) =
           st\<lparr>processed_events := (''task-'' @ g @ ''-'' @ t) # processed_events st,
              invoked := invoked st @ [ProcessTaskAssignment g]\<rparr>"
  using assms
  by (simp add: process_webhook_event_safe_def process_webhook_event_def
      process_task_event_def task_changed_def fmt_opt_def set_add_def Let_def)

lemma process_fresh_story:
  assumes "''story-'' @ g @ ''-'' @ t \<notin> set (processed_events st)"
  shows "process_webhook_event_safe pick st (story_added g t) =
           st\<lparr>processed_events := (''story-'' @ g @ ''-'' @ t) # processed_events st,
              invoked := invoked st @ [ProcessStoryMention g None]\<rparr>"
  using assms
  by (simp add: process_webhook_event_safe_def process_webhook_event_def
      process_story_event_def story_added_def fmt_opt_def set_add_def Let_def)

lemma run_fresh_tasks:
  assumes "distinct gs"
    and "\<forall>g \<in> set gs. ''task-'' @ g @ ''-'' @ t \<notin> set (processed_events st)"
    and "length (processed_events st) + length gs \<le> MAX_PROCESSED_EVENTS"
  shows "foldl (process_webhook_event_safe pick) st (map (\<lambda>g. task_changed g t) gs) =
           st\<lparr>processed_events := rev (map (\<lambda>g. ''task-'' @ g @ ''-'' @ t) gs) @ processed_events st,
              invoked := invoked st @ map ProcessTaskAssignment gs\<rparr>"
  using assms
proof (induction gs arbitrary: st)
  case Nil
  show ?case by simp
next
  case (Cons g gs)
  let ?st1 = "st\<lparr>processed_events := (''task-'' @ g @ ''-'' @ t) # processed_events st,
                  invoked := invoked st @ [ProcessTaskAssignment g]\<rparr>"
  have step: "process_webhook_event_safe pick st (task_changed g t) = ?st1"
    using Cons.prems by (intro process_fresh_task) auto
  have "foldl (process_webhook_event_safe pick) ?st1 (map (\<lambda>g. task_changed g t) gs) =
          ?st1\<lparr>processed_events := rev (map (\<lambda>g. ''task-'' @ g @ ''-'' @ t) gs) @ processed_events ?st1,
               invoked := invoked ?st1 @ map ProcessTaskAssignment gs\<rparr>"
    using Cons.prems by (intro Cons.IH) auto
  with step show ?case by simp
qed

lemma run_fresh_stories:
  assumes "distinct gs"
    and "\<forall>g \<in> set gs. ''story-'' @ g @ ''-'' @ t \<notin> set (processed_events st)"
  shows "foldl (process_webhook_event_safe pick) st (map (\<lambda>g. story_added g t) gs) =
           st\<lparr>processed_events := rev (map (\<lambda>g. ''story-'' @ g @ ''-'' @ t) gs) @ processed_events st,
              invoked := invoked st @ map (\<lambda>g. ProcessStoryMention g None) gs\<rparr>"
  using assms
proof (induction gs arbitrary: st)
  case Nil
  show ?case by simp
next
  case (Cons g gs)
  let ?st1 = "st\<lparr>processed_events := (''story-'' @ g @ ''-'' @ t) # processed_events st,
                  invoked := invoked st @ [ProcessStoryMention g None]\<rparr>"
  have step: "process_webhook_event_safe pick st (story_added g t) = ?st1"
    using Cons.prems by (intro process_fresh_story) auto
  have "foldl (process_webhook_event_safe pick) ?st1 (map (\<lambda>g. story_added g t) gs) =
          ?st1\<lparr>processed_events := rev (map (\<lambda>g. ''story-'' @ g @ ''-'' @ t) gs) @ processed_events ?st1,
               invoked := invoked ?st1 @ map (\<lambda>g. ProcessStoryMention g None) gs\<rparr>"
    using Cons.prems by (intro Cons.IH) auto
  with step show ?case by simp
qed

lemma ones_gid_inj: "inj ones_gid"
proof (rule injI)
  fix m n assume "ones_gid m = ones_gid n"
  then have "length (ones_gid m) = length (ones_gid n)" by simp
  then show "m = n" by (simp add: ones_gid_def)
qed

lemma distinct_ones_gids: "distinct (map ones_gid [0..<n])"
  by (simp add: distinct_map inj_on_def ones_gid_def)

lemma length_set_pop: "s \<noteq> [] \<Longrightarrow> length (set_pop pick s) = length s - 1"
proof -
  assume ne: "s \<noteq> []"
  define i where "i = pick s mod length s"
  have lt: "i < length s"
    using ne by (simp add: i_def)
  have "length (take i s @ drop (Suc i) s) = length s - 1"
    using lt by auto
  then show ?thesis
    using ne by (simp add: set_pop_def Let_def i_def)
qed

lemma length_pop_times: "n \<le> length s \<Longrightarrow> length (pop_times pick n s) = length s - n"
proof (induction n arbitrary: s)
  case 0
  show ?case by simp
next
  case (Suc n)
  then have ne: "s \<noteq> []" by auto
  have "length (pop_times pick n (set_pop pick s)) = length (set_pop pick s) - n"
    using Suc.prems ne by (intro Suc.IH) (simp add: length_set_pop)
  with ne show ?case by (simp add: length_set_pop)
qed

text \<open>The task path keeps the set within the maximum, whatever \<^verbatim>\<open>pop()\<close> removes.\<close>

lemma process_task_event_bounded:
  assumes "length (processed_events st) \<le> MAX_PROCESSED_EVENTS"
  shows "length (processed_events (process_task_event pick st event)) \<le> MAX_PROCESSED_EVENTS"
proof -
  have "length (set_add k (processed_events st)) \<le> Suc MAX_PROCESSED_EVENTS" for k
    using assms by (simp add: set_add_def)
  then have "length (if length (set_add k (processed_events st)) > MAX_PROCESSED_EVENTS
        then pop_times pick (length (set_add k (processed_events st)) - cleanup_target)
               (set_add k (processed_events st))
        else set_add k (processed_events st)) \<le> MAX_PROCESSED_EVENTS" for k
    by (simp add: length_pop_times MAX_PROCESSED_EVENTS_def cleanup_target_def)
  with assms show ?thesis
    by (simp add: process_task_event_def Let_def)
qed

text \<open>A duplicate that follows directly is dropped when the first delivery evicted nothing.\<close>

lemma duplicate_task_event_dropped:
  assumes "length (processed_events st) < MAX_PROCESSED_EVENTS"
  shows "process_task_event pick (process_task_event pick st event) event
           = process_task_event pick st event"
  using assms by (simp add: process_task_event_def Let_def set_add_def)

lemma duplicate_story_event_dropped:
  "process_story_event (process_story_event st event) event = process_story_event st event"
  by (simp add: process_story_event_def Let_def set_add_def)

lemma process_task_at_capacity:
  assumes "''task-'' @ g @ ''-'' @ t \<notin> set (processed_events st)"
    and "length (processed_events st) = MAX_PROCESSED_EVENTS"
  shows "process_webhook_event_safe pop_newest st (task_changed g t) =
           st\<lparr>processed_events := drop 100 (processed_events st),
              invoked := invoked st @ [ProcessTaskAssignment g]\<rparr>"
  using assms
  by (simp add: process_webhook_event_safe_def process_webhook_event_def
      process_task_event_def task_changed_def fmt_opt_def set_add_def Let_def
      pop_times_newest MAX_PROCESSED_EVENTS_def cleanup_target_def)

text \<open>
  Claim C1 (the code at a failing input). The set holds the keys of 1000 task events; the
  event for task \<open>ones_gid 1000\<close> arrives twice in a row. The first processing adds its
  key, the set has 1001 entries, and the cleanup pops 101 of them; when the new key is
  among those, the second processing does not find it and calls the reconciler again.
\<close>

theorem duplicate_task_event_reprocessed:
  "invoked (foldl (process_webhook_event_safe pop_newest) initial_processor
      (map (\<lambda>g. task_changed g ''t'') (map ones_gid [0..<1000])
        @ [task_changed (ones_gid 1000) ''t'', task_changed (ones_gid 1000) ''t'']))
   = map ProcessTaskAssignment (map ones_gid [0..<1000])
      @ [ProcessTaskAssignment (ones_gid 1000), ProcessTaskAssignment (ones_gid 1000)]"
proof -
  let ?gs = "map ones_gid [0..<1000]"
  let ?keys = "rev (map (\<lambda>g. ''task-'' @ g @ ''-'' @ ''t'') ?gs)"
  let ?st0 = "\<lparr>processed_events = ?keys, invoked = map ProcessTaskAssignment ?gs\<rparr>"
  let ?e = "task_changed (ones_gid 1000) ''t''"
  have run: "foldl (process_webhook_event_safe pop_newest) initial_processor
               (map (\<lambda>g. task_changed g ''t'') ?gs) = ?st0"
    using run_fresh_tasks [of ?gs "''t''" initial_processor pop_newest] distinct_ones_gids [of 1000]
    by (simp add: initial_processor_def MAX_PROCESSED_EVENTS_def)
  have "ones_gid 1000 \<notin> set ?gs"
    using injD [OF ones_gid_inj] by fastforce
  then have fresh: "''task-'' @ ones_gid 1000 @ ''-'' @ ''t'' \<notin> set ?keys"
    by auto
  let ?st1 = "?st0\<lparr>processed_events := drop 100 ?keys,
                   invoked := invoked ?st0 @ [ProcessTaskAssignment (ones_gid 1000)]\<rparr>"
  have first: "process_webhook_event_safe pop_newest ?st0 ?e = ?st1"
    using fresh process_task_at_capacity [of "ones_gid 1000" "''t''" ?st0]
    by (simp add: MAX_PROCESSED_EVENTS_def)
  have "''task-'' @ ones_gid 1000 @ ''-'' @ ''t'' \<notin> set (drop 100 ?keys)"
    using fresh by (meson in_set_dropD)
  then have second: "process_webhook_event_safe pop_newest ?st1 ?e =
      ?st1\<lparr>processed_events := (''task-'' @ ones_gid 1000 @ ''-'' @ ''t'') # processed_events ?st1,
           invoked := invoked ?st1 @ [ProcessTaskAssignment (ones_gid 1000)]\<rparr>"
    using process_fresh_task [of "ones_gid 1000" "''t''" ?st1 pop_newest]
    by (simp add: MAX_PROCESSED_EVENTS_def)
  show ?thesis
    unfolding foldl_append run
    by (simp only: foldl.simps first second) simp
qed

text \<open>
  Claim C2 (the code at a failing input). Starting from the empty set, 1001 story events
  with different gids leave 1001 keys in the set: \<^verbatim>\<open>process_story_event\<close> adds its key
  and never evicts.
\<close>

theorem story_events_exceed_maximum:
  "length (processed_events (foldl (process_webhook_event_safe pick) initial_processor
      (map (\<lambda>g. story_added g ''t'') (map ones_gid [0..<1001])))) = 1001
   \<and> 1001 > MAX_PROCESSED_EVENTS"
  using run_fresh_stories [of "map ones_gid [0..<1001]" "''t''" initial_processor pick]
    distinct_ones_gids [of 1001]
  by (simp add: initial_processor_def MAX_PROCESSED_EVENTS_def)

section \<open>Text formatter\<close>

subsection \<open>Regular expressions as \<^verbatim>\<open>re\<close> matches them\<close>

text \<open>
  The patterns of this module are sequences of single-character items: one character of a
  class, an optional one, or a greedy repetition. \<open>rx_match\<close> tries the alternatives in
  the order of the backtracking matcher (longest repetition first) and returns the input
  left after the first match found at the start of the string.
\<close>

datatype rx_item = One "char \<Rightarrow> bool" | Opt "char \<Rightarrow> bool" | Star "char \<Rightarrow> bool"

fun rx_match :: "rx_item list \<Rightarrow> string \<Rightarrow> string option" where
  "rx_match [] s = Some s"
| "rx_match (One p # r) [] = None"
| "rx_match (One p # r) (c # s) = (if p c then rx_match r s else None)"
| "rx_match (Opt p # r) [] = rx_match r []"
| "rx_match (Opt p # r) (c # s) =
     (if p c then (case rx_match r s of Some t \<Rightarrow> Some t | None \<Rightarrow> rx_match r (c # s))
      else rx_match r (c # s))"
| "rx_match (Star p # r) [] = rx_match r []"
| "rx_match (Star p # r) (c # s) =
     (if p c then (case rx_match (Star p # r) s of Some t \<Rightarrow> Some t | None \<Rightarrow> rx_match r (c # s))
      else rx_match r (c # s))"

text \<open>
  \<^verbatim>\<open>re.sub\<close> with a replacement text that holds no group reference: scan from the left,
  replace each match and go on after it, copy every other character. An empty match is
  replaced too and the scan moves on by one character; the patterns of this module have
  no empty match.
\<close>

function re_sub :: "rx_item list \<Rightarrow> string \<Rightarrow> string \<Rightarrow> string" where
  "re_sub pat repl s =
     (case rx_match pat s of
        Some rest \<Rightarrow>
          if length rest < length s then repl @ re_sub pat repl rest
          else repl @ (case s of [] \<Rightarrow> [] | c # s' \<Rightarrow> c # re_sub pat repl s')
      | None \<Rightarrow> (case s of [] \<Rightarrow> [] | c # s' \<Rightarrow> c # re_sub pat repl s'))"
  by pat_completeness auto
termination
  by (relation "measure (\<lambda>(pat, repl, s). length s)") auto

declare re_sub.simps [simp del]

text \<open>A literal text of a pattern compiled with \<^verbatim>\<open>re.IGNORECASE\<close>.\<close>

definition lit_ci :: "string \<Rightarrow> rx_item list" where
  "lit_ci w = map (\<lambda>c. One (ci_eq c)) w"

text \<open>\<^verbatim>\<open>\n{3,}\<close>\<close>

definition newline_run :: "rx_item list" where
  "newline_run = [One (\<lambda>c. c = nl), One (\<lambda>c. c = nl), One (\<lambda>c. c = nl), Star (\<lambda>c. c = nl)]"

text \<open>\<^verbatim>\<open><a[^>]*data-asana-gid="GID"[^>]*>@[^<]*</a>\<close>, ignoring case.\<close>

definition mention_anchor :: "string \<Rightarrow> rx_item list" where
  "mention_anchor g =
     lit_ci ''<a'' @ [Star (\<lambda>c. c \<noteq> CHR ''>'')] @ lit_ci ''data-asana-gid='' @ lit_ci [dquote]
       @ lit_ci g @ lit_ci [dquote] @ [Star (\<lambda>c. c \<noteq> CHR ''>'')] @ lit_ci ''>@''
       @ [Star (\<lambda>c. c \<noteq> CHR ''<'')] @ lit_ci ''</a>''"

definition url_char :: "char \<Rightarrow> bool" where
  "url_char c = (\<not> is_space c \<and> c \<noteq> CHR ''<'' \<and> c \<noteq> CHR ''>'' \<and> c \<noteq> dquote)"

text \<open>\<^verbatim>\<open>https?://[^\s<>"]*GID[^\s<>"]*\<close>, ignoring case.\<close>

definition gid_url :: "string \<Rightarrow> rx_item list" where
  "gid_url g =
     lit_ci ''http'' @ [Opt (ci_eq (CHR ''s''))] @ lit_ci ''://'' @ [Star url_char]
       @ lit_ci g @ [Star url_char]"

text \<open>\<^verbatim>\<open>\[[^\]]*\]\([^)]*GID[^)]*\)\<close>, ignoring case.\<close>

definition markdown_link :: "string \<Rightarrow> rx_item list" where
  "markdown_link g =
     lit_ci ''['' @ [Star (\<lambda>c. c \<noteq> CHR '']'')] @ lit_ci ''](''
       @ [Star (\<lambda>c. c \<noteq> CHR '')'')] @ lit_ci g @ [Star (\<lambda>c. c \<noteq> CHR '')'')] @ lit_ci '')''"

definition sanitize_agent_mentions :: "string \<Rightarrow> string option \<Rightarrow> string" where
  "sanitize_agent_mentions txt agent_user_gid =
     (if txt = [] \<or> \<not> truthy agent_user_gid then txt
      else
        (let g = the agent_user_gid;
             t1 = re_sub (mention_anchor g) [] txt;
             t2 = re_sub (gid_url g) ''[link removed]'' t1;
             t3 = re_sub (markdown_link g) [] t2
         in t3))"

definition markdown_to_asana_html :: "(string \<Rightarrow> string) \<Rightarrow> string \<Rightarrow> string option \<Rightarrow> string" where
  "markdown_to_asana_html asana_markdown markdown_text agent_user_gid =
     (if markdown_text = [] then []
      else
        (let txt = sanitize_agent_mentions markdown_text agent_user_gid;
             result = asana_markdown txt;
             result = re_sub newline_run [nl, nl] result
         in strip result))"

definition quote_char :: "char \<Rightarrow> bool" where
  "quote_char c = (c = dquote \<or> c = squote)"

text \<open>
  \<^verbatim>\<open><a[^>]*href=["\']https?://app\.asana\.com/\d+/profile/\d+["\'][^>]*>[^<]*</a>\s*\<close>,
  ignoring case.
\<close>

definition profile_anchor :: "rx_item list" where
  "profile_anchor =
     lit_ci ''<a'' @ [Star (\<lambda>c. c \<noteq> CHR ''>'')] @ lit_ci ''href='' @ [One quote_char]
       @ lit_ci ''http'' @ [Opt (ci_eq (CHR ''s''))] @ lit_ci ''://app.asana.com/''
       @ [One is_digit, Star is_digit] @ lit_ci ''/profile/'' @ [One is_digit, Star is_digit]
       @ [One quote_char] @ [Star (\<lambda>c. c \<noteq> CHR ''>'')] @ lit_ci ''>''
       @ [Star (\<lambda>c. c \<noteq> CHR ''<'')] @ lit_ci ''</a>'' @ [Star is_space]"

definition asana_html_to_markdown :: "(string \<Rightarrow> string) \<Rightarrow> string \<Rightarrow> string" where
  "asana_html_to_markdown md html_text =
     (if html_text = [] then []
      else
        (let txt = re_sub profile_anchor [] html_text;
             markdown = md txt;
             markdown = re_sub newline_run [nl, nl] markdown
         in strip markdown))"

text \<open>\<^verbatim>\<open>https?://app\.asana\.com/\d+/profile/\d+\s*\<close>, ignoring case.\<close>

definition profile_url :: "rx_item list" where
  "profile_url =
     lit_ci ''http'' @ [Opt (ci_eq (CHR ''s''))] @ lit_ci ''://app.asana.com/''
       @ [One is_digit, Star is_digit] @ lit_ci ''/profile/'' @ [One is_digit, Star is_digit]
       @ [Star is_space]"

definition clean_asana_comment :: "string \<Rightarrow> string" where
  "clean_asana_comment comment_text =
     (if comment_text = [] then comment_text
      else
        (let txt = re_sub profile_url [] comment_text;
             txt = re_sub newline_run [nl, nl] txt
         in strip txt))"

text \<open>\<^verbatim>\<open>AsanaHTMLRenderer.paragraph\<close>.\<close>

definition renderer_paragraph :: "string \<Rightarrow> string" where
  "renderer_paragraph txt = txt @ [nl, nl]"

subsection \<open>Newline cleanup\<close>

fun lead_nl :: "string \<Rightarrow> nat" where
  "lead_nl [] = 0"
| "lead_nl (c # s) = (if c = nl then Suc (lead_nl s) else 0)"

lemma rx_match_star_nl: "rx_match [Star (\<lambda>c. c = nl)] s = Some (dropWhile (\<lambda>c. c = nl) s)"
  by (induction s) simp_all

lemma prefix_nl3: "prefix [nl, nl, nl] s \<longleftrightarrow> 3 \<le> lead_nl s"
proof (cases s)
  case Nil then show ?thesis by simp
next
  case (Cons a s1)
  show ?thesis
  proof (cases s1)
    case Nil with Cons show ?thesis by simp
  next
    case (Cons b s2)
    note c2 = this
    show ?thesis
    proof (cases s2)
      case Nil with \<open>s = a # s1\<close> c2 show ?thesis by simp
    next
      case (Cons c s3)
      with \<open>s = a # s1\<close> c2 show ?thesis by auto
    qed
  qed
qed

lemma rx_match_newline_run:
  "rx_match newline_run s =
     (if prefix [nl, nl, nl] s then Some (dropWhile (\<lambda>c. c = nl) (drop 3 s)) else None)"
proof (cases s)
  case Nil then show ?thesis by (simp add: newline_run_def)
next
  case (Cons a s1)
  show ?thesis
  proof (cases s1)
    case Nil with Cons show ?thesis by (simp add: newline_run_def)
  next
    case (Cons b s2)
    note c2 = this
    show ?thesis
    proof (cases s2)
      case Nil with \<open>s = a # s1\<close> c2 show ?thesis by (simp add: newline_run_def)
    next
      case (Cons c s3)
      with \<open>s = a # s1\<close> c2 show ?thesis
        by (simp add: newline_run_def rx_match_star_nl)
    qed
  qed
qed

lemma lead_nl_dropWhile: "lead_nl (dropWhile (\<lambda>c. c = nl) s) = 0"
  by (induction s) simp_all

lemma length_dropWhile_drop3: "s \<noteq> [] \<Longrightarrow> length (dropWhile P (drop 3 s)) < length s"
  by (metis length_drop length_dropWhile_le length_greater_0_conv
      order.strict_trans1 diff_less zero_less_numeral)

lemma collapse_match:
  assumes "prefix [nl, nl, nl] s"
  shows "re_sub newline_run [nl, nl] s =
           nl # nl # re_sub newline_run [nl, nl] (dropWhile (\<lambda>c. c = nl) (drop 3 s))"
proof -
  from assms have "s \<noteq> []" by auto
  then have "length (dropWhile (\<lambda>c. c = nl) (drop 3 s)) < length s"
    by (rule length_dropWhile_drop3)
  with assms show ?thesis
    by (subst re_sub.simps) (simp add: rx_match_newline_run)
qed

lemma collapse_copy:
  assumes "\<not> prefix [nl, nl, nl] (c # s)"
  shows "re_sub newline_run [nl, nl] (c # s) = c # re_sub newline_run [nl, nl] s"
proof -
  have "rx_match newline_run (c # s) = None"
    using assms by (simp only: rx_match_newline_run if_False)
  then show ?thesis by (subst re_sub.simps) simp
qed

lemma collapse_Nil: "re_sub newline_run [nl, nl] [] = []"
  by (subst re_sub.simps) (simp add: rx_match_newline_run)

lemma collapse_invariant:
  "\<not> sublist [nl, nl, nl] (re_sub newline_run [nl, nl] s)
   \<and> lead_nl (re_sub newline_run [nl, nl] s) \<le> lead_nl s"
proof (induction s rule: length_induct)
  case (1 s)
  let ?f = "re_sub newline_run [nl, nl]"
  show ?case
  proof (cases "prefix [nl, nl, nl] s")
    case True
    let ?rest = "dropWhile (\<lambda>c. c = nl) (drop 3 s)"
    from True have ne: "s \<noteq> []" by auto
    have eq: "?f s = nl # nl # ?f ?rest" using True by (rule collapse_match)
    have "length ?rest < length s" using ne by (rule length_dropWhile_drop3)
    with 1 have ih: "\<not> sublist [nl, nl, nl] (?f ?rest)" "lead_nl (?f ?rest) \<le> lead_nl ?rest"
      by blast+
    from ih(2) have z: "lead_nl (?f ?rest) = 0" by (simp add: lead_nl_dropWhile)
    have a: "\<not> prefix [nl, nl, nl] (nl # ?f ?rest)"
      unfolding prefix_nl3 using z by simp
    have b: "\<not> prefix [nl, nl, nl] (nl # nl # ?f ?rest)"
      unfolding prefix_nl3 using z by simp
    have "\<not> sublist [nl, nl, nl] (?f s)"
      unfolding eq using ih(1) a b by (simp add: sublist_Cons_right)
    moreover have "lead_nl (?f s) \<le> lead_nl s"
      using True z unfolding eq prefix_nl3 by simp
    ultimately show ?thesis by blast
  next
    case False
    show ?thesis
    proof (cases s)
      case Nil
      then show ?thesis by (simp add: collapse_Nil)
    next
      case (Cons c s')
      have eq: "?f s = c # ?f s'" using False Cons by (simp add: collapse_copy)
      from 1 Cons have ih: "\<not> sublist [nl, nl, nl] (?f s')" "lead_nl (?f s') \<le> lead_nl s'"
        by auto
      have "\<not> prefix [nl, nl, nl] (c # ?f s')"
        using False ih(2) unfolding Cons prefix_nl3 by (auto split: if_splits)
      then have "\<not> sublist [nl, nl, nl] (?f s)"
        unfolding eq using ih(1) by (simp add: sublist_Cons_right)
      moreover have "lead_nl (?f s) \<le> lead_nl s"
        unfolding eq using ih(2) Cons by simp
      ultimately show ?thesis by blast
    qed
  qed
qed

lemma strip_sublist: "sublist (strip s) s"
proof -
  have "prefix (rev (dropWhile is_space (rev (dropWhile is_space s)))) (dropWhile is_space s)"
    by (metis suffix_dropWhile suffix_to_prefix rev_rev_ident)
  moreover have "suffix (dropWhile is_space s) s" by (rule suffix_dropWhile)
  ultimately show ?thesis
    unfolding strip_def by (meson prefix_imp_sublist suffix_imp_sublist sublist_order.order_trans)
qed

lemma strip_ends:
  "strip s = [] \<or> (\<not> is_space (hd (strip s)) \<and> \<not> is_space (last (strip s)))"
proof (cases "strip s = []")
  case True then show ?thesis by simp
next
  case False
  let ?d = "dropWhile is_space s"
  let ?e = "dropWhile is_space (rev ?d)"
  have s: "strip s = rev ?e" by (simp add: strip_def)
  with False have ne: "?e \<noteq> []" by simp
  then have he: "\<not> is_space (hd ?e)" by (rule hd_dropWhile)
  have "suffix ?e (rev ?d)" by (rule suffix_dropWhile)
  then obtain p where p: "rev ?d = p @ ?e" by (auto simp: suffix_def)
  with ne have "last (rev ?d) = last ?e" by (metis last_appendR)
  moreover from p ne have dne: "?d \<noteq> []"
    by (metis append_is_Nil_conv rev_is_Nil_conv)
  ultimately have "last ?e = hd ?d" by (simp add: last_rev)
  moreover have "\<not> is_space (hd ?d)" using dne by (rule hd_dropWhile)
  ultimately have "\<not> is_space (last ?e)" by simp
  with he ne show ?thesis
    unfolding s by (simp add: hd_rev last_rev)
qed

lemma cleanup_no_newline_run: "\<not> sublist [nl, nl, nl] (strip (re_sub newline_run [nl, nl] s))"
proof
  assume "sublist [nl, nl, nl] (strip (re_sub newline_run [nl, nl] s))"
  then have "sublist [nl, nl, nl] (re_sub newline_run [nl, nl] s)"
    using strip_sublist sublist_order.order_trans by blast
  then show False using collapse_invariant by blast
qed

subsection \<open>The cleanup against its description\<close>

text \<open>
  The cleanup in the words of the specification: each run of three or more consecutive
  newlines becomes one blank line (two newlines); shorter runs and every other character
  stay.
\<close>

function collapse_blank_lines :: "string \<Rightarrow> string" where
  "collapse_blank_lines [] = []"
| "collapse_blank_lines (c # s) =
     (if c \<noteq> nl then c # collapse_blank_lines s
      else
        (let run = takeWhile (\<lambda>x. x = nl) (c # s);
             rest = dropWhile (\<lambda>x. x = nl) (c # s)
         in (if 3 \<le> length run then [nl, nl] else run) @ collapse_blank_lines rest))"
  by pat_completeness auto
termination
proof (relation "measure length")
  show "wf (measure length)" by simp
next
  fix c :: char and s :: string
  show "(s, c # s) \<in> measure length" by simp
next
  fix c :: char and s x xa
  assume "\<not> c \<noteq> nl" and "xa = dropWhile (\<lambda>x. x = nl) (c # s)"
  then have "length xa \<le> length s"
    by (simp add: length_dropWhile_le)
  then show "(xa, c # s) \<in> measure length" by simp
qed

declare collapse_blank_lines.simps [simp del]

lemma re_sub_newline_run_collapse:
  "re_sub newline_run [nl, nl] s = collapse_blank_lines s"
proof (induction s rule: length_induct)
  case (1 s)
  let ?f = "re_sub newline_run [nl, nl]"
  show ?case
  proof (cases s)
    case Nil
    then show ?thesis by (simp add: collapse_Nil collapse_blank_lines.simps)
  next
    case (Cons c t)
    show ?thesis
    proof (cases "c = nl")
      case False
      then have "\<not> prefix [nl, nl, nl] (c # t)" by simp
      then have "?f (c # t) = c # ?f t" by (rule collapse_copy)
      moreover have "?f t = collapse_blank_lines t" using 1 Cons by simp
      ultimately show ?thesis using False Cons by (simp add: collapse_blank_lines.simps)
    next
      case True
      let ?rest = "dropWhile (\<lambda>x. x = nl) s"
      have lrest: "length ?rest < length s"
        using True Cons by (simp add: length_dropWhile_le le_imp_less_Suc)
      have ih: "?f ?rest = collapse_blank_lines ?rest" using 1 lrest by blast
      have cb: "collapse_blank_lines s =
          (if 3 \<le> length (takeWhile (\<lambda>x. x = nl) s) then [nl, nl]
           else takeWhile (\<lambda>x. x = nl) s) @ collapse_blank_lines ?rest"
        using True Cons by (simp add: collapse_blank_lines.simps Let_def)
      show ?thesis
      proof (cases "prefix [nl, nl, nl] s")
        case p: True
        then obtain u where u: "s = nl # nl # nl # u" by (auto simp: prefix_def)
        have "?f s = nl # nl # ?f (dropWhile (\<lambda>c. c = nl) (drop 3 s))"
          using p by (rule collapse_match)
        moreover have "dropWhile (\<lambda>c. c = nl) (drop 3 s) = ?rest" using u by simp
        moreover have "3 \<le> length (takeWhile (\<lambda>x. x = nl) s)" using u by simp
        ultimately show ?thesis using ih cb by simp
      next
        case np: False
        have step: "?f s = nl # ?f t" using np True Cons by (simp add: collapse_copy)
        have iht: "?f t = collapse_blank_lines t" using 1 Cons by simp
        show ?thesis
        proof (cases t)
          case Nil
          then show ?thesis using step True Cons
            by (simp add: collapse_Nil collapse_blank_lines.simps)
        next
          case t2: (Cons d t')
          show ?thesis
          proof (cases "d = nl")
            case False
            then show ?thesis
              using step iht True Cons t2 by (simp add: collapse_blank_lines.simps)
          next
            case dn: True
            have "t' = [] \<or> hd t' \<noteq> nl"
              using np True Cons t2 dn by (cases t') auto
            then have dw: "dropWhile (\<lambda>x. x = nl) t' = t'" "takeWhile (\<lambda>x. x = nl) t' = []"
              by (cases t'; simp)+
            show ?thesis
              using step iht True Cons t2 dn dw by (simp add: collapse_blank_lines.simps Let_def)
          qed
        qed
      qed
    qed
  qed
qed

lemma collapse_blank_lines_append:
  "a = [] \<or> last a \<noteq> nl \<Longrightarrow>
     collapse_blank_lines (a @ x) = collapse_blank_lines a @ collapse_blank_lines x"
proof (induction a rule: collapse_blank_lines.induct)
  case 1
  show ?case by (simp add: collapse_blank_lines.simps)
next
  case (2 c s)
  show ?case
  proof (cases "c = nl")
    case False
    have "s = [] \<or> last s \<noteq> nl" using "2.prems" by (auto split: if_splits)
    then have "collapse_blank_lines (s @ x) = collapse_blank_lines s @ collapse_blank_lines x"
      using False by (intro "2.IH"(1)) auto
    then show ?thesis using False by (simp add: collapse_blank_lines.simps)
  next
    case True
    let ?a = "c # s"
    let ?rest = "dropWhile (\<lambda>x. x = nl) ?a"
    have la: "last ?a \<noteq> nl" using "2.prems" by simp
    have mem: "last ?a \<in> set ?a" by (rule last_in_set) simp
    have tw: "takeWhile (\<lambda>x. x = nl) (?a @ x) = takeWhile (\<lambda>x. x = nl) ?a"
      using mem la by (rule takeWhile_append1)
    have dw: "dropWhile (\<lambda>x. x = nl) (?a @ x) = ?rest @ x"
      using mem la by (rule dropWhile_append1)
    have rne: "?rest \<noteq> []"
      using mem la by (metis (mono_tags, lifting) dropWhile_eq_Nil_conv)
    have "suffix ?rest ?a" by (rule suffix_dropWhile)
    then obtain p where "?a = p @ ?rest" unfolding suffix_def by blast
    then have "last ?rest = last ?a" using rne by (metis last_appendR)
    then have "?rest = [] \<or> last ?rest \<noteq> nl" using la by simp
    then have ih: "collapse_blank_lines (?rest @ x)
        = collapse_blank_lines ?rest @ collapse_blank_lines x"
      using True by (intro "2.IH"(2)) auto
    have "collapse_blank_lines (?a @ x) =
        (if 3 \<le> length (takeWhile (\<lambda>x. x = nl) (?a @ x)) then [nl, nl]
         else takeWhile (\<lambda>x. x = nl) (?a @ x))
        @ collapse_blank_lines (dropWhile (\<lambda>x. x = nl) (?a @ x))"
      using True by (simp add: collapse_blank_lines.simps Let_def)
    also have "\<dots> = (if 3 \<le> length (takeWhile (\<lambda>x. x = nl) ?a) then [nl, nl]
         else takeWhile (\<lambda>x. x = nl) ?a) @ collapse_blank_lines ?rest @ collapse_blank_lines x"
      unfolding tw dw ih by simp
    also have "\<dots> = collapse_blank_lines ?a @ collapse_blank_lines x"
      using True by (simp add: collapse_blank_lines.simps Let_def)
    finally show ?thesis .
  qed
qed

lemma collapse_blank_lines_run:
  assumes "3 \<le> k" and "b = [] \<or> hd b \<noteq> nl"
  shows "collapse_blank_lines (replicate k nl @ b) = [nl, nl] @ collapse_blank_lines b"
proof -
  obtain j where k: "k = Suc j" using assms(1) by (cases k) auto
  have tb: "takeWhile (\<lambda>x. x = nl) b = []" and db: "dropWhile (\<lambda>x. x = nl) b = b"
    using assms(2) by (cases b; simp)+
  have tw: "takeWhile (\<lambda>x. x = nl) (replicate n nl @ b) = replicate n nl" for n
    by (induction n) (simp_all add: tb)
  have dw: "dropWhile (\<lambda>x. x = nl) (replicate n nl @ b) = b" for n
    by (induction n) (simp_all add: db)
  have "collapse_blank_lines (nl # replicate j nl @ b) =
      (if 3 \<le> length (takeWhile (\<lambda>x. x = nl) (nl # replicate j nl @ b)) then [nl, nl]
       else takeWhile (\<lambda>x. x = nl) (nl # replicate j nl @ b))
      @ collapse_blank_lines (dropWhile (\<lambda>x. x = nl) (nl # replicate j nl @ b))"
    by (simp add: collapse_blank_lines.simps Let_def)
  then show ?thesis
    using tw [of k] dw [of k] assms(1) unfolding k by simp
qed

lemma collapse_blank_lines_unchanged:
  "\<not> sublist [nl, nl, nl] s \<Longrightarrow> collapse_blank_lines s = s"
proof (induction s)
  case Nil
  show ?case by (simp add: collapse_blank_lines.simps)
next
  case (Cons c s)
  then have np: "\<not> prefix [nl, nl, nl] (c # s)" and ns: "\<not> sublist [nl, nl, nl] s"
    by (auto simp: sublist_Cons_right)
  have "re_sub newline_run [nl, nl] (c # s) = c # re_sub newline_run [nl, nl] s"
    using np by (rule collapse_copy)
  then show ?case
    using Cons.IH [OF ns] by (simp add: re_sub_newline_run_collapse)
qed

text \<open>
  Claim C10. For every input, \<^verbatim>\<open>markdown_to_asana_html\<close> and \<^verbatim>\<open>asana_html_to_markdown\<close>
  return the converted text with each run of three or more newlines collapsed to exactly
  one blank line and the whitespace at both ends removed: the result holds no three
  consecutive newlines and neither starts nor ends with a whitespace character. The
  markdown renderer and the HTML converter are parameters.
\<close>

theorem newline_normalization:
  "markdown_to_asana_html asana_markdown markdown_text agent_gid =
     (if markdown_text = [] then []
      else strip (collapse_blank_lines
                    (asana_markdown (sanitize_agent_mentions markdown_text agent_gid))))
   \<and> asana_html_to_markdown md html =
     (if html = [] then []
      else strip (collapse_blank_lines (md (re_sub profile_anchor [] html))))
   \<and> (3 \<le> k \<and> (a = [] \<or> last a \<noteq> nl) \<and> (b = [] \<or> hd b \<noteq> nl) \<longrightarrow>
        collapse_blank_lines (a @ replicate k nl @ b)
          = collapse_blank_lines a @ [nl, nl] @ collapse_blank_lines b)
   \<and> (\<not> sublist [nl, nl, nl] s \<longrightarrow> collapse_blank_lines s = s)
   \<and> \<not> sublist [nl, nl, nl] (markdown_to_asana_html asana_markdown markdown_text agent_gid)
   \<and> (markdown_to_asana_html asana_markdown markdown_text agent_gid = []
      \<or> (\<not> is_space (hd (markdown_to_asana_html asana_markdown markdown_text agent_gid))
         \<and> \<not> is_space (last (markdown_to_asana_html asana_markdown markdown_text agent_gid))))
   \<and> \<not> sublist [nl, nl, nl] (asana_html_to_markdown md html)
   \<and> (asana_html_to_markdown md html = []
      \<or> (\<not> is_space (hd (asana_html_to_markdown md html))
         \<and> \<not> is_space (last (asana_html_to_markdown md html))))"
proof -
  have e1: "markdown_to_asana_html asana_markdown markdown_text agent_gid =
     (if markdown_text = [] then []
      else strip (collapse_blank_lines
                    (asana_markdown (sanitize_agent_mentions markdown_text agent_gid))))"
    by (simp add: markdown_to_asana_html_def Let_def re_sub_newline_run_collapse)
  have e2: "asana_html_to_markdown md html =
     (if html = [] then []
      else strip (collapse_blank_lines (md (re_sub profile_anchor [] html))))"
    by (simp add: asana_html_to_markdown_def Let_def re_sub_newline_run_collapse)
  have r: "collapse_blank_lines (a @ replicate k nl @ b)
          = collapse_blank_lines a @ [nl, nl] @ collapse_blank_lines b"
    if "3 \<le> k" "a = [] \<or> last a \<noteq> nl" "b = [] \<or> hd b \<noteq> nl"
    using that by (simp add: collapse_blank_lines_append collapse_blank_lines_run)
  have u: "collapse_blank_lines s = s" if "\<not> sublist [nl, nl, nl] s"
    using that by (rule collapse_blank_lines_unchanged)
  have a: "\<not> sublist [nl, nl, nl] (markdown_to_asana_html asana_markdown markdown_text agent_gid)"
    by (simp add: markdown_to_asana_html_def Let_def cleanup_no_newline_run)
  have b: "\<not> sublist [nl, nl, nl] (asana_html_to_markdown md html)"
    by (simp add: asana_html_to_markdown_def Let_def cleanup_no_newline_run)
  have c: "markdown_to_asana_html asana_markdown markdown_text agent_gid = []
      \<or> (\<not> is_space (hd (markdown_to_asana_html asana_markdown markdown_text agent_gid))
         \<and> \<not> is_space (last (markdown_to_asana_html asana_markdown markdown_text agent_gid)))"
    using strip_ends by (simp add: markdown_to_asana_html_def Let_def)
  have d: "asana_html_to_markdown md html = []
      \<or> (\<not> is_space (hd (asana_html_to_markdown md html))
         \<and> \<not> is_space (last (asana_html_to_markdown md html)))"
    using strip_ends by (simp add: asana_html_to_markdown_def Let_def)
  from e1 e2 r u a b c d show ?thesis by blast
qed

theorem newline_normalization_witness:
  "markdown_to_asana_html renderer_paragraph (''a'' @ replicate 4 nl @ ''b '') None
     = ''a'' @ [nl, nl] @ ''b''
   \<and> asana_html_to_markdown (\<lambda>s. s) (''a'' @ replicate 4 nl @ ''b '') = ''a'' @ [nl, nl] @ ''b''
   \<and> collapse_blank_lines (''a'' @ replicate 4 nl @ ''b'') = ''a'' @ [nl, nl] @ ''b''
   \<and> \<not> sublist [nl, nl, nl] (''a'' @ [nl, nl] @ ''b'')
   \<and> collapse_blank_lines (''a'' @ [nl, nl] @ ''b'') = ''a'' @ [nl, nl] @ ''b''"
proof -
  have s1: "strip (collapse_blank_lines (renderer_paragraph
              (sanitize_agent_mentions (''a'' @ replicate 4 nl @ ''b '') None)))
            = ''a'' @ [nl, nl] @ ''b''"
    by code_simp
  have s2: "strip (collapse_blank_lines (re_sub profile_anchor [] (''a'' @ replicate 4 nl @ ''b '')))
            = ''a'' @ [nl, nl] @ ''b''"
    by code_simp
  have h: "(3::nat) \<le> 4 \<and> (''a'' = [] \<or> last ''a'' \<noteq> nl) \<and> (''b'' = [] \<or> hd ''b'' \<noteq> nl)"
    by (simp add: nl_def)
  have n: "\<not> sublist [nl, nl, nl] ''a''" "\<not> sublist [nl, nl, nl] ''b''"
    "\<not> sublist [nl, nl, nl] (''a'' @ [nl, nl] @ ''b'')"
    by code_simp+
  note t = newline_normalization [of renderer_paragraph "''a'' @ replicate 4 nl @ ''b ''" None
        "\<lambda>s. s" "''a'' @ replicate 4 nl @ ''b ''" 4 "''a''" "''b''"]
  have ne: "''a'' @ replicate 4 nl @ ''b '' \<noteq> []" by simp
  have c1: "markdown_to_asana_html renderer_paragraph (''a'' @ replicate 4 nl @ ''b '') None
     = ''a'' @ [nl, nl] @ ''b''"
    using t [of "''a''"] ne s1 by presburger
  have c2: "asana_html_to_markdown (\<lambda>s. s) (''a'' @ replicate 4 nl @ ''b '') = ''a'' @ [nl, nl] @ ''b''"
    using t [of "''a''"] ne s2 by presburger
  have ua: "collapse_blank_lines ''a'' = ''a''" using t [of "''a''"] n(1) by blast
  have ub: "collapse_blank_lines ''b'' = ''b''" using t [of "''b''"] n(2) by blast
  have "collapse_blank_lines (''a'' @ replicate 4 nl @ ''b'')
          = collapse_blank_lines ''a'' @ [nl, nl] @ collapse_blank_lines ''b''"
    using t [of "''a''"] h by blast
  then have c3: "collapse_blank_lines (''a'' @ replicate 4 nl @ ''b'') = ''a'' @ [nl, nl] @ ''b''"
    by (simp only: ua ub)
  have c4: "collapse_blank_lines (''a'' @ [nl, nl] @ ''b'') = ''a'' @ [nl, nl] @ ''b''"
    using t [of "''a'' @ [nl, nl] @ ''b''"] n(3) by blast
  from c1 c2 c3 n(3) c4 show ?thesis by blast
qed

subsection \<open>Mention sanitising\<close>

lemma py_lower_upper:
  assumes "py_lower c \<noteq> c"
  shows "(of_char (py_lower c) :: nat) = of_char c + 32 \<and> 65 \<le> (of_char c :: nat)"
proof -
  let ?n = "of_char c :: nat"
  from assms have up: "(65 \<le> ?n \<and> ?n \<le> 90) \<or> (192 \<le> ?n \<and> ?n \<le> 222 \<and> ?n \<noteq> 215)"
    by (auto simp: py_lower_def Let_def split: if_splits)
  then have "py_lower c = char_of (?n + 32)"
    by (simp add: py_lower_def Let_def)
  then have "(of_char (py_lower c) :: nat) = (?n + 32) mod 256" by simp
  moreover from up have "?n + 32 < 256" by auto
  ultimately show ?thesis using up by auto
qed

lemma ci_eq_uncased:
  assumes "(of_char a :: nat) < 97" and "\<not> (65 \<le> (of_char a :: nat) \<and> (of_char a :: nat) \<le> 90)"
  shows "ci_eq a c \<longleftrightarrow> c = a"
proof -
  have la: "py_lower a = a"
    using assms by (auto simp: py_lower_def Let_def)
  show ?thesis
  proof (cases "py_lower c = c")
    case True
    with la show ?thesis by (auto simp: ci_eq_def)
  next
    case False
    then have "(of_char (py_lower c) :: nat) = of_char c + 32 \<and> 65 \<le> (of_char c :: nat)"
      by (rule py_lower_upper)
    then have "97 \<le> (of_char (py_lower c) :: nat)" by simp
    with assms(1) have "py_lower c \<noteq> a" by auto
    moreover from False la have "c \<noteq> a" by auto
    ultimately show ?thesis using la by (simp add: ci_eq_def)
  qed
qed


lemma ci_eq_bracket: "ci_eq (CHR ''['') c \<longleftrightarrow> c = CHR ''[''"
  by (rule ci_eq_uncased) simp_all


subsection \<open>A mention anchor in plain text\<close>

lemma ci_eq_refl [simp]: "ci_eq c c"
  by (simp add: ci_eq_def)





text \<open>The mention of user \<open>g\<close> as Asana writes it, with the display name \<open>nm\<close>.\<close>

definition mention_anchor_text :: "string \<Rightarrow> string \<Rightarrow> string" where
  "mention_anchor_text g nm =
     ''<a data-asana-gid='' @ [dquote] @ g @ [dquote] @ ''>@'' @ nm @ ''</a>''"














subsection \<open>Occurrences of a literal\<close>

text \<open>\<open>w\<close> occurs in \<open>s\<close>, ignoring case.\<close>

definition ci_occurs :: "string \<Rightarrow> string \<Rightarrow> bool" where
  "ci_occurs w s = sublist (map py_lower w) (map py_lower s)"





subsection \<open>Text the patterns leave alone\<close>















subsection \<open>Text copied before a match\<close>












subsection \<open>A URL and a markdown link that hold the gid\<close>











lemma ci_eq_rparen: "ci_eq (CHR '')'') c \<longleftrightarrow> c = CHR '')''"
  by (rule ci_eq_uncased) simp_all







lemma ci_occurs_bracket: "ci_occurs ''['' s \<longleftrightarrow> CHR ''['' \<in> set s"
proof (induction s)
  case Nil
  show ?case by (simp add: ci_occurs_def)
next
  case (Cons c s)
  have "py_lower (CHR ''['') = py_lower c \<longleftrightarrow> c = CHR ''[''"
    using ci_eq_bracket [of c] by (simp add: ci_eq_def)
  then have "prefix (map py_lower ''['') (map py_lower (c # s)) \<longleftrightarrow> c = CHR ''[''"
    by auto
  with Cons show ?case
    by (auto simp: ci_occurs_def sublist_Cons_right)
qed



subsection \<open>One markup after plain text\<close>














subsection \<open>What the sanitiser removes\<close>


text \<open>
  The URL pattern runs before the link pattern and takes the closing parenthesis with it:
  of a markdown link to a URL that holds the agent gid, the label and the opening of the
  target stay.
\<close>

lemma sanitize_link_to_url:
  "sanitize_agent_mentions ''[me](https://app.asana.com/0/12345/list)'' (Some ''12345'')
     = ''[me]([link removed]''"
  by code_simp



section \<open>Reconciler and reporter\<close>

subsection \<open>Remote data (\<^verbatim>\<open>asana_models.py\<close>)\<close>

record AsanaUser = AsanaResource +
  email :: "string option"

text \<open>
  A task, its fields prefixed with \<open>t_\<close> where the name is taken; the name is
  required here. \<open>projects\<close> keeps the name of each project.
\<close>

record AsanaTask =
  t_gid :: string
  t_name :: string
  t_notes :: "string option"
  t_html_notes :: "string option"
  due_on :: "string option"
  assignee :: "AsanaUser option"
  projects :: "string option list"
  permalink_url :: "string option"

text \<open>
  A story; \<open>story_created_at\<close> is the creation time as \<^verbatim>\<open>strftime("%Y-%m-%d %H:%M")\<close>
  prints it.
\<close>

record Story = AsanaResource +
  story_text :: "string option"
  html_text :: "string option"
  resource_subtype :: "string option"
  story_created_at :: "string option"
  created_by :: "AsanaUser option"
  target :: "AsanaResource option"

record AsanaSettings =
  access_token :: string
  workspace_gid :: "string option"
  project_gid :: "string option"
  agent_user_gid :: "string option"

subsection \<open>Conversations of the host\<close>

text \<open>
  An agent state as \<^verbatim>\<open>AgentState(event.agent_state)\<close> gives it; the five terminal states
  are those of \<^verbatim>\<open>TERMINAL_STATES\<close>.
\<close>

datatype AgentState =
    FINISHED | STOPPED | ERROR | REJECTED | AWAITING_USER_INPUT | NonTerminal string

definition TERMINAL_STATES :: "AgentState set" where
  "TERMINAL_STATES = {FINISHED, STOPPED, ERROR, REJECTED, AWAITING_USER_INPUT}"

datatype EventSource = USER | AGENT | ENVIRONMENT

text \<open>
  Events of a conversation. The state of an \<^verbatim>\<open>AgentStateChangedObservation\<close> is \<open>None\<close>
  when its value is no \<^verbatim>\<open>AgentState\<close> (the constructor raises \<^verbatim>\<open>ValueError\<close>).
\<close>

datatype Event =
    AgentStateChangedObservation "AgentState option"
  | MessageAction EventSource string
  | OtherEvent

text \<open>
  The stream of a conversation: its events, oldest first, and the listener whose callback
  is subscribed under \<^verbatim>\<open>asana_reporter_<conversation_id>\<close>, by its address.
\<close>

record EventStream =
  stream_events :: "Event list"
  asana_subscriber :: "nat option"

record AgentSession =
  event_stream :: "EventStream option"

record AsanaConversationListener =
  l_task_gid :: string
  l_conversation_id :: string
  reported :: bool

datatype comment =
    ResultComment string AgentState
  | PinnedLink string string
  | StartFailure string

text \<open>
  The world the reconciler runs in. The first group is what the collaborators answer
  (\<open>None\<close>: the call raises); the second is the state of the host and of this module;
  the third records the effects. Listener objects live in \<open>listeners\<close> and are named by
  their position, since a subscribed callback and \<^verbatim>\<open>_active_listeners\<close> can hold
  different objects for one conversation.
\<close>

record world =
  loaded_settings :: "AsanaSettings option"
  remote_tasks :: "string \<rightharpoonup> AsanaTask"
  remote_stories :: "string \<rightharpoonup> Story"
  remote_task_stories :: "string \<rightharpoonup> Story list"
  like_succeeds :: bool
  add_comment_succeeds :: bool
  new_conversation :: "nat \<Rightarrow> (string \<times> AgentSession option) option"
  arriving_during_sleep :: "Event list"
  store_writable :: bool
  sessions :: "string \<rightharpoonup> AgentSession"
  mapping_file :: "(string \<rightharpoonup> string) option"
  active_listeners :: "string \<rightharpoonup> nat"
  listeners :: "AsanaConversationListener list"
  likes_sent :: "string list"
  comments_posted :: "comment list"
  conversations_created :: "(string \<times> string) list"

subsection \<open>The task-to-conversation mapping (\<^verbatim>\<open>asana_service.py\<close>)\<close>

definition get_task_conversation_mapping :: "world \<Rightarrow> (string \<rightharpoonup> string)" where
  "get_task_conversation_mapping w =
     (case mapping_file w of None \<Rightarrow> Map.empty | Some m \<Rightarrow> m)"

definition save_task_conversation_mapping :: "(string \<rightharpoonup> string) \<Rightarrow> world \<Rightarrow> world" where
  "save_task_conversation_mapping m w =
     (if store_writable w then w\<lparr>mapping_file := Some m\<rparr> else w)"

definition get_conversation_for_task :: "string \<Rightarrow> world \<Rightarrow> string option \<times> world" where
  "get_conversation_for_task task_gid w =
     (let m = get_task_conversation_mapping w;
          conversation_id = m task_gid
      in if truthy conversation_id then
           (case sessions w (the conversation_id) of
              Some agent_session \<Rightarrow> (conversation_id, w)
            | None \<Rightarrow> (None, save_task_conversation_mapping (m(task_gid := None)) w))
         else (None, w))"

definition set_conversation_for_task :: "string \<Rightarrow> string \<Rightarrow> world \<Rightarrow> world" where
  "set_conversation_for_task task_gid conversation_id w =
     save_task_conversation_mapping
       ((get_task_conversation_mapping w)(task_gid \<mapsto> conversation_id)) w"

subsection \<open>The listener (\<^verbatim>\<open>asana_reporter.py\<close>)\<close>

definition add_comment :: "comment \<Rightarrow> world \<Rightarrow> world option" where
  "add_comment c w =
     (if add_comment_succeeds w then Some (w\<lparr>comments_posted := comments_posted w @ [c]\<rparr>)
      else None)"

text \<open>
  \<^verbatim>\<open>_report_to_asana\<close>, with \<^verbatim>\<open>report_result\<close>: one comment on the task when the session
  and its stream exist and the post succeeds; every exception is caught. The text of
  the comment (\<^verbatim>\<open>format_agent_result\<close>) is not part of the record.
\<close>

definition report_to_asana :: "nat \<Rightarrow> AgentState \<Rightarrow> world \<Rightarrow> world" where
  "report_to_asana a agent_state w =
     (let self = listeners w ! a in
      case sessions w (l_conversation_id self) of
        None \<Rightarrow> w
      | Some agent_session \<Rightarrow>
          (case event_stream agent_session of
             None \<Rightarrow> w
           | Some es \<Rightarrow>
               (case add_comment (ResultComment (l_task_gid self) agent_state) w of
                  None \<Rightarrow> w
                | Some w' \<Rightarrow> w')))"

definition set_reported :: "nat \<Rightarrow> bool \<Rightarrow> world \<Rightarrow> world" where
  "set_reported a b w = w\<lparr>listeners := (listeners w)[a := (listeners w ! a)\<lparr>reported := b\<rparr>]\<rparr>"

text \<open>The callback made by \<^verbatim>\<open>create_callback\<close> for the listener at address \<open>a\<close>.\<close>

definition callback :: "nat \<Rightarrow> Event \<Rightarrow> world \<Rightarrow> world" where
  "callback a event w =
     (case event of
        AgentStateChangedObservation st \<Rightarrow>
          (case st of
             None \<Rightarrow> w
           | Some agent_state \<Rightarrow>
               if agent_state \<notin> TERMINAL_STATES then w
               else if reported (listeners w ! a) then w
               else report_to_asana a agent_state (set_reported a True w))
      | _ \<Rightarrow> w)"

text \<open>
  \<^verbatim>\<open>event_stream.add_event\<close> of the host: the event joins the stream and the subscribed
  callback runs. \<open>None\<close> when the conversation has no session or no stream.
\<close>

definition add_event :: "string \<Rightarrow> Event \<Rightarrow> world \<Rightarrow> world option" where
  "add_event conversation_id event w =
     (case sessions w conversation_id of
        None \<Rightarrow> None
      | Some agent_session \<Rightarrow>
          (case event_stream agent_session of
             None \<Rightarrow> None
           | Some es \<Rightarrow>
               (let es' = es\<lparr>stream_events := stream_events es @ [event]\<rparr>;
                    w1 = w\<lparr>sessions := (sessions w)(conversation_id \<mapsto>
                            agent_session\<lparr>event_stream := Some es'\<rparr>)\<rparr>
                in case asana_subscriber es of
                     None \<Rightarrow> Some w1
                   | Some a \<Rightarrow> Some (callback a event w1))))"

fun deliver :: "string \<Rightarrow> Event list \<Rightarrow> world \<Rightarrow> world" where
  "deliver conversation_id [] w = w"
| "deliver conversation_id (e # es) w =
     deliver conversation_id es
       (case add_event conversation_id e w of None \<Rightarrow> w | Some w' \<Rightarrow> w')"

text \<open>
  The catch-up loop of \<^verbatim>\<open>subscribe_to_conversation_events\<close> over the recent events,
  newest first: the first terminal state found is reported and ends the loop.
\<close>

fun catch_up :: "nat \<Rightarrow> Event list \<Rightarrow> world \<Rightarrow> world" where
  "catch_up a [] w = w"
| "catch_up a (AgentStateChangedObservation None # es) w = catch_up a es w"
| "catch_up a (AgentStateChangedObservation (Some agent_state) # es) w =
     (if agent_state \<in> TERMINAL_STATES
      then report_to_asana a agent_state (set_reported a True w)
      else catch_up a es w)"
| "catch_up a (e # es) w = catch_up a es w"

definition subscribe_to_conversation_events :: "string \<Rightarrow> string \<Rightarrow> world \<Rightarrow> world" where
  "subscribe_to_conversation_events conversation_id task_gid w =
     (case sessions w conversation_id of
        None \<Rightarrow> w
      | Some agent_session \<Rightarrow>
          (case event_stream agent_session of
             None \<Rightarrow> w
           | Some es \<Rightarrow>
               (let a = length (listeners w);
                    listener = \<lparr>l_task_gid = task_gid, l_conversation_id = conversation_id,
                                reported = False\<rparr>;
                    es' = (case asana_subscriber es of
                             None \<Rightarrow> es\<lparr>asana_subscriber := Some a\<rparr>
                           | Some b \<Rightarrow> es);
                    w1 = w\<lparr>listeners := listeners w @ [listener],
                           active_listeners := (active_listeners w)(conversation_id \<mapsto> a),
                           sessions := (sessions w)(conversation_id \<mapsto>
                             agent_session\<lparr>event_stream := Some es'\<rparr>)\<rparr>;
                    w2 = (deliver conversation_id (arriving_during_sleep w1) w1)
                           \<lparr>arriving_during_sleep := []\<rparr>
                in case sessions w2 conversation_id of
                     None \<Rightarrow> w2
                   | Some s2 \<Rightarrow>
                       (case event_stream s2 of
                          None \<Rightarrow> w2
                        | Some es2 \<Rightarrow> catch_up a (take 50 (rev (stream_events es2))) w2))))"

subsection \<open>Messages for the agent (\<^verbatim>\<open>asana_service.py\<close>)\<close>

text \<open>\<^verbatim>\<open>sep.join(parts)\<close>.\<close>

fun join :: "string \<Rightarrow> string list \<Rightarrow> string" where
  "join sep [] = []"
| "join sep [p] = p"
| "join sep (p # q # ps) = p @ sep @ join sep (q # ps)"

text \<open>The \<^verbatim>\<open>Description\<close> part shared by the two message builders.\<close>

definition description_parts :: "(string \<Rightarrow> string) \<Rightarrow> AsanaTask \<Rightarrow> string list" where
  "description_parts md task =
     (if truthy (t_html_notes task) then
        (let description = asana_html_to_markdown md (the (t_html_notes task)) in
         if description \<noteq> [] then [''## Description'', description, ''''] else [])
      else if truthy (t_notes task) then [''## Description'', the (t_notes task), '''']
      else [])"

definition build_task_message :: "(string \<Rightarrow> string) \<Rightarrow> AsanaTask \<Rightarrow> string" where
  "build_task_message md task =
     (let project_names = map the (filter truthy (projects task)) in
      join [nl]
        ([''# Asana Task: '' @ t_name task, '''']
         @ description_parts md task
         @ [''## Task Details'', ''- **Task ID**: '' @ t_gid task]
         @ (if truthy (permalink_url task) then [''- **Link**: '' @ the (permalink_url task)] else [])
         @ (if truthy (due_on task) then [''- **Due Date**: '' @ the (due_on task)] else [])
         @ (if project_names \<noteq> [] then [''- **Projects**: '' @ join '', '' project_names] else [])
         @ ['''', ''---'', '''', ''Please analyze this task and work on completing it.'']))"

definition comment_parts :: "(string \<Rightarrow> string) \<Rightarrow> Story \<Rightarrow> string list" where
  "comment_parts md c =
     (let author = (case created_by c of None \<Rightarrow> ''Unknown'' | Some u \<Rightarrow> fmt_opt (name u));
          author_gid = (case created_by c of None \<Rightarrow> None | Some u \<Rightarrow> Some (gid u));
          profile_link = (if truthy author_gid then ''https://app.asana.com/0/'' @ the author_gid
                          else []);
          comment_text = (if truthy (html_text c) then asana_html_to_markdown md (the (html_text c))
                          else (case story_text c of None \<Rightarrow> [] | Some t \<Rightarrow> t));
          timestamp = (case story_created_at c of None \<Rightarrow> [] | Some t \<Rightarrow> '' ('' @ t @ '')'')
      in [if profile_link \<noteq> [] then ''**'' @ author @ ''**'' @ timestamp @ '' ('' @ profile_link @ ''):''
          else ''**'' @ author @ ''**'' @ timestamp @ '':'',
          comment_text, ''''])"

definition build_task_message_with_question ::
  "(string \<Rightarrow> string) \<Rightarrow> AsanaTask \<Rightarrow> string \<Rightarrow> Story list \<Rightarrow> string" where
  "build_task_message_with_question md task question previous_comments =
     join [nl]
       (description_parts md task
        @ (if previous_comments \<noteq> []
           then [''## Previous Comments'', ''''] @ concat (map (comment_parts md) previous_comments)
           else [])
        @ [''---'', '''', ''## Question'', '''', question])"

subsection \<open>Creating and continuing conversations\<close>

text \<open>
  \<^verbatim>\<open>create_asana_conversation\<close>: the host creates the conversation (or raises), and the
  listener is subscribed when a task and a token are given.
\<close>

definition create_asana_conversation ::
  "string \<Rightarrow> string option \<Rightarrow> string option \<Rightarrow> world \<Rightarrow> (py_error + string) \<times> world" where
  "create_asana_conversation initial_message task_gid asana_access_token w =
     (case new_conversation w (length (conversations_created w)) of
        None \<Rightarrow> (Inl OtherException, w)
      | Some (conversation_id, agent_session) \<Rightarrow>
          (let w1 = w\<lparr>conversations_created :=
                         conversations_created w @ [(conversation_id, initial_message)],
                       sessions := (sessions w)(conversation_id := agent_session)\<rparr>;
               w2 = (if truthy task_gid \<and> truthy asana_access_token
                     then subscribe_to_conversation_events conversation_id (the task_gid) w1
                     else w1)
           in (Inr conversation_id, w2)))"

definition send_message_to_conversation ::
  "string \<Rightarrow> string \<Rightarrow> string option \<Rightarrow> string option \<Rightarrow> world \<Rightarrow> bool \<times> world" where
  "send_message_to_conversation conversation_id message task_gid asana_access_token w =
     (case sessions w conversation_id of
        None \<Rightarrow> (False, w)
      | Some agent_session \<Rightarrow>
          (let w1 = (case active_listeners w conversation_id of
                       Some a \<Rightarrow> set_reported a False w
                     | None \<Rightarrow>
                         if truthy task_gid \<and> truthy asana_access_token
                         then subscribe_to_conversation_events conversation_id (the task_gid) w
                         else w)
           in case add_event conversation_id (MessageAction USER message) w1 of
                None \<Rightarrow> (False, w1)
              | Some w2 \<Rightarrow> (True, w2)))"

text \<open>A best-effort like: the failure is logged only.\<close>

definition like :: "string \<Rightarrow> world \<Rightarrow> world" where
  "like g w = (if like_succeeds w then w\<lparr>likes_sent := likes_sent w @ [g]\<rparr> else w)"

definition try_add_comment :: "comment \<Rightarrow> world \<Rightarrow> world" where
  "try_add_comment c w = (case add_comment c w of None \<Rightarrow> w | Some w' \<Rightarrow> w')"

definition get_base_url :: string where
  "get_base_url = ''http://localhost:3000''"

definition get_conversation_url :: "string \<Rightarrow> string" where
  "get_conversation_url conversation_id = get_base_url @ ''/conversations/'' @ conversation_id"

subsection \<open>Task assignment\<close>

definition process_task_assignment ::
  "(string \<Rightarrow> string) \<Rightarrow> string \<Rightarrow> world \<Rightarrow> string option \<times> world" where
  "process_task_assignment md task_gid w =
     (case loaded_settings w of
        None \<Rightarrow> (None, w)
      | Some asana_settings \<Rightarrow>
          (case remote_tasks w task_gid of
             None \<Rightarrow> (None, w)
           | Some task \<Rightarrow>
               (let assignee_gid = (case assignee task of None \<Rightarrow> None | Some u \<Rightarrow> Some (gid u)) in
                if truthy (agent_user_gid asana_settings)
                   \<and> assignee_gid \<noteq> agent_user_gid asana_settings
                then (None, w)
                else
                  (let w1 = like task_gid w;
                       initial_message = build_task_message md task;
                       (existing_conversation_id, w2) = get_conversation_for_task task_gid w1
                   in if truthy existing_conversation_id then (existing_conversation_id, w2)
                      else
                        (case create_asana_conversation initial_message (Some task_gid)
                                (Some (access_token asana_settings)) w2 of
                           (Inl e, w3) \<Rightarrow> (None, try_add_comment (StartFailure task_gid) w3)
                         | (Inr conversation_id, w3) \<Rightarrow>
                             (let w4 = set_conversation_for_task task_gid conversation_id w3;
                                  conversation_url = get_conversation_url conversation_id;
                                  w5 = try_add_comment (PinnedLink task_gid conversation_url) w4
                              in (Some conversation_id, w5)))))))"

subsection \<open>Comment mention\<close>

text \<open>
  Lines 491--571 of \<^verbatim>\<open>process_story_mention\<close>, once the parent task is known: like the
  story, clean the comment, continue the live conversation of the task or create one.
  When the task or its stories cannot be fetched, the initial message is the cleaned
  comment alone. (The task name given to \<^verbatim>\<open>create_asana_conversation\<close> is not used by
  it.)
\<close>

definition mention_with_task ::
  "(string \<Rightarrow> string) \<Rightarrow> AsanaSettings \<Rightarrow> string \<Rightarrow> string \<Rightarrow> string \<Rightarrow> world
    \<Rightarrow> string option \<times> world" where
  "mention_with_task md asana_settings story_gid task_gid comment_text w =
     (let w1 = like story_gid w;
          cleaned_comment = clean_asana_comment comment_text;
          (existing_conversation_id, w2) = get_conversation_for_task task_gid w1;
          (success, w3) =
            (if truthy existing_conversation_id
             then send_message_to_conversation (the existing_conversation_id) cleaned_comment
                    (Some task_gid) (Some (access_token asana_settings)) w2
             else (False, w2))
      in if truthy existing_conversation_id \<and> success then (existing_conversation_id, w3)
         else
           (let initial_message =
                  (case remote_tasks w3 task_gid of
                     None \<Rightarrow> cleaned_comment
                   | Some task \<Rightarrow>
                       (case remote_task_stories w3 task_gid of
                          None \<Rightarrow> cleaned_comment
                        | Some all_stories \<Rightarrow>
                            build_task_message_with_question md task cleaned_comment
                              (filter (\<lambda>s. resource_subtype s = Some ''comment_added''
                                            \<and> gid s \<noteq> story_gid) all_stories)))
            in case create_asana_conversation initial_message (Some task_gid)
                      (Some (access_token asana_settings)) w3 of
                 (Inl e, w4) \<Rightarrow> (None, w4)
               | (Inr conversation_id, w4) \<Rightarrow>
                   (Some conversation_id,
                    set_conversation_for_task task_gid conversation_id w4)))"

definition process_story_mention ::
  "(string \<Rightarrow> string) \<Rightarrow> string \<Rightarrow> string option \<Rightarrow> world \<Rightarrow> string option \<times> world" where
  "process_story_mention md story_gid parent_gid w =
     (case loaded_settings w of
        None \<Rightarrow> (None, w)
      | Some asana_settings \<Rightarrow>
          if \<not> truthy (agent_user_gid asana_settings) then (None, w)
          else
            (case remote_stories w story_gid of
               None \<Rightarrow> (None, w)
             | Some story \<Rightarrow>
                 if resource_subtype story \<noteq> Some ''comment_added'' then (None, w)
                 else
                   (let agent_mentioned =
                          (truthy (html_text story)
                           \<and> sublist (the (agent_user_gid asana_settings)) (the (html_text story)))
                    in if \<not> agent_mentioned then (None, w)
                       else
                         (let comment_text =
                                (if truthy (html_text story)
                                 then asana_html_to_markdown md (the (html_text story))
                                 else (case story_text story of None \<Rightarrow> [] | Some t \<Rightarrow> t))
                          in if strip comment_text = [] then (None, w)
                             else
                               (let task_gid =
                                      (if \<not> truthy parent_gid
                                       then (case target story of
                                               None \<Rightarrow> parent_gid
                                             | Some t \<Rightarrow> Some (gid t))
                                       else parent_gid)
                                in if \<not> truthy task_gid then (None, w)
                                   else mention_with_task md asana_settings story_gid
                                          (the task_gid) comment_text w)))))"

subsection \<open>Example worlds\<close>

definition base_world :: world where
  "base_world =
     \<lparr>loaded_settings = Some \<lparr>access_token = ''token'', workspace_gid = None,
                               project_gid = None, agent_user_gid = Some ''12345''\<rparr>,
      remote_tasks = Map.empty, remote_stories = Map.empty, remote_task_stories = Map.empty,
      like_succeeds = True, add_comment_succeeds = True,
      new_conversation = (\<lambda>n. None), arriving_during_sleep = [], store_writable = True,
      sessions = Map.empty, mapping_file = None, active_listeners = Map.empty,
      listeners = [], likes_sent = [], comments_posted = [], conversations_created = []\<rparr>"

definition example_task :: AsanaTask where
  "example_task =
     \<lparr>t_gid = ''T1'', t_name = ''Fix the build'', t_notes = None, t_html_notes = None,
      due_on = None,
      assignee = Some \<lparr>gid = ''12345'', resource_type = None, name = None, email = None\<rparr>,
      projects = [], permalink_url = None\<rparr>"

definition example_story :: "string \<Rightarrow> Story" where
  "example_story h =
     \<lparr>gid = ''S1'', resource_type = None, name = None, story_text = None,
      html_text = Some h, resource_subtype = Some ''comment_added'',
      story_created_at = None, created_by = None,
      target = Some \<lparr>gid = ''T1'', resource_type = None, name = None\<rparr>\<rparr>"

definition live_session :: AgentSession where
  "live_session = \<lparr>event_stream = Some \<lparr>stream_events = [], asana_subscriber = None\<rparr>\<rparr>"

subsection \<open>Properties of the reconciler\<close>

text \<open>
  Claim C4. When the settings load, the task is fetched and passes the assignee filter,
  and the mapping file maps the task to a conversation (a non-empty id) whose session
  exists, \<^verbatim>\<open>process_task_assignment\<close> returns that id; the only effect is the like: no
  conversation is created, no comment is posted, and the mapping file is as before.
\<close>

theorem reassignment_idempotent:
  assumes "loaded_settings w = Some st"
    and "remote_tasks w task_gid = Some task"
    and "truthy (agent_user_gid st) \<longrightarrow>
           (case assignee task of None \<Rightarrow> None | Some u \<Rightarrow> Some (gid u)) = agent_user_gid st"
    and "mapping_file w = Some m" and "m task_gid = Some c" and "c \<noteq> []"
    and "sessions w c = Some agent_session"
  shows "process_task_assignment md task_gid w = (Some c, like task_gid w)
         \<and> conversations_created (snd (process_task_assignment md task_gid w))
             = conversations_created w
         \<and> comments_posted (snd (process_task_assignment md task_gid w)) = comments_posted w
         \<and> mapping_file (snd (process_task_assignment md task_gid w)) = mapping_file w"
proof -
  have g: "get_conversation_for_task task_gid (like task_gid w) = (Some c, like task_gid w)"
    using assms(4-7)
    by (simp add: get_conversation_for_task_def get_task_conversation_mapping_def like_def
        truthy_def Let_def)
  have r: "process_task_assignment md task_gid w = (Some c, like task_gid w)"
    using assms(1-3,6) g
    by (simp add: process_task_assignment_def Let_def truthy_def)
  show ?thesis
    unfolding r by (simp add: like_def)
qed

theorem reassignment_idempotent_witness:
  "process_task_assignment (\<lambda>s. s) ''T1''
     (base_world\<lparr>remote_tasks := [''T1'' \<mapsto> example_task],
                 mapping_file := Some [''T1'' \<mapsto> ''conv1''],
                 sessions := [''conv1'' \<mapsto> live_session]\<rparr>)
   = (Some ''conv1'',
      like ''T1'' (base_world\<lparr>remote_tasks := [''T1'' \<mapsto> example_task],
                 mapping_file := Some [''T1'' \<mapsto> ''conv1''],
                 sessions := [''conv1'' \<mapsto> live_session]\<rparr>))"
proof -
  let ?w = "base_world\<lparr>remote_tasks := [''T1'' \<mapsto> example_task],
                 mapping_file := Some [''T1'' \<mapsto> ''conv1''],
                 sessions := [''conv1'' \<mapsto> live_session]\<rparr>"
  have "loaded_settings ?w = Some \<lparr>access_token = ''token'', workspace_gid = None,
                               project_gid = None, agent_user_gid = Some ''12345''\<rparr>"
    by (simp add: base_world_def)
  moreover have "remote_tasks ?w ''T1'' = Some example_task" by simp
  moreover have "(case assignee example_task of None \<Rightarrow> None | Some u \<Rightarrow> Some (gid u))
                   = Some ''12345''"
    by (simp add: example_task_def)
  moreover have "mapping_file ?w = Some [''T1'' \<mapsto> ''conv1'']" by simp
  moreover have "sessions ?w ''conv1'' = Some live_session" by simp
  ultimately show ?thesis
    using reassignment_idempotent [of ?w _ "''T1''" example_task "[''T1'' \<mapsto> ''conv1'']"
        "''conv1''" live_session "\<lambda>s. s"]
    by simp
qed

text \<open>
  When the HTML text of the fetched story does not contain the configured agent gid
  anywhere, \<^verbatim>\<open>process_story_mention\<close> returns \<^verbatim>\<open>None\<close> and the world is unchanged: no
  conversation is created and no message is delivered.
\<close>

lemma mention_gating:
  assumes "remote_stories w story_gid = Some story"
    and "\<forall>st g. loaded_settings w = Some st \<and> agent_user_gid st = Some g
           \<longrightarrow> \<not> (\<exists>h. html_text story = Some h \<and> sublist g h)"
  shows "process_story_mention md story_gid parent_gid w = (None, w)"
  using assms
  by (auto simp: process_story_mention_def Let_def truthy_def split: option.splits)

lemma mention_gating_example:
  "process_story_mention (\<lambda>s. s) ''S1'' None
     (base_world\<lparr>remote_stories := [''S1'' \<mapsto> example_story ''please look at this'']\<rparr>)
   = (None, base_world\<lparr>remote_stories := [''S1'' \<mapsto> example_story ''please look at this'']\<rparr>)"
proof -
  let ?w = "base_world\<lparr>remote_stories := [''S1'' \<mapsto> example_story ''please look at this'']\<rparr>"
  have "\<not> sublist ''12345'' ''please look at this''" by code_simp
  then have "\<forall>st g. loaded_settings ?w = Some st \<and> agent_user_gid st = Some g
           \<longrightarrow> \<not> (\<exists>h. html_text (example_story ''please look at this'') = Some h \<and> sublist g h)"
    by (auto simp: base_world_def example_story_def)
  moreover have "remote_stories ?w ''S1'' = Some (example_story ''please look at this'')" by simp
  ultimately show ?thesis
    by (rule mention_gating [rotated])
qed

subsection \<open>Comment mention when the task cannot be fetched\<close>

lemma created_set_reported [simp]:
  "conversations_created (set_reported a b w) = conversations_created w"
  by (simp add: set_reported_def)

lemma created_report_to_asana [simp]:
  "conversations_created (report_to_asana a s w) = conversations_created w"
  by (simp add: report_to_asana_def add_comment_def Let_def split: option.splits)

lemma created_callback [simp]:
  "conversations_created (callback a e w) = conversations_created w"
  by (simp add: callback_def split: Event.splits option.splits)

lemma created_add_event:
  "add_event c e w = Some w' \<Longrightarrow> conversations_created w' = conversations_created w"
  by (auto simp: add_event_def Let_def split: option.splits)

lemma created_deliver [simp]:
  "conversations_created (deliver c es w) = conversations_created w"
  by (induction es arbitrary: w) (auto split: option.splits dest: created_add_event)

lemma created_catch_up [simp]:
  "conversations_created (catch_up a es w) = conversations_created w"
  by (induction a es w rule: catch_up.induct) simp_all

lemma created_subscribe [simp]:
  "conversations_created (subscribe_to_conversation_events c t w) = conversations_created w"
  by (simp add: subscribe_to_conversation_events_def Let_def split: option.splits)

lemma create_asana_conversation_outcome:
  "create_asana_conversation msg t tok w = (r, w') \<Longrightarrow>
     (case new_conversation w (length (conversations_created w)) of
        None \<Rightarrow> r = Inl OtherException \<and> w' = w
      | Some (cid, sess) \<Rightarrow>
          r = Inr cid \<and> conversations_created w' = conversations_created w @ [(cid, msg)])"
  by (auto simp: create_asana_conversation_def Let_def split: option.splits)

lemma get_conversation_for_task_frame:
  "get_conversation_for_task t w = (r, w') \<Longrightarrow>
     conversations_created w' = conversations_created w
     \<and> new_conversation w' = new_conversation w
     \<and> remote_tasks w' = remote_tasks w
     \<and> remote_task_stories w' = remote_task_stories w"
  by (auto simp: get_conversation_for_task_def save_task_conversation_mapping_def Let_def
      split: option.splits if_splits)

lemma created_set_conversation_for_task [simp]:
  "conversations_created (set_conversation_for_task t c w) = conversations_created w"
  by (simp add: set_conversation_for_task_def save_task_conversation_mapping_def)

text \<open>
  Claim C8, amended. When the agent is mentioned, the parent task is known (from the
  event or from the target of the story), no live conversation is mapped to it, and the
  fetch of the task or of its stories fails, \<^verbatim>\<open>process_story_mention\<close>
  does not abort: the initial message falls back to the cleaned comment alone and the
  conversation is still created. When the host creates it, its id is returned; when the
  creation raises, \<^verbatim>\<open>None\<close> is returned and nothing is created. The function returns
  in every case.
\<close>

theorem mention_fetch_failure_falls_back:
  assumes "loaded_settings w = Some st" and "agent_user_gid st = Some g" and "g \<noteq> []"
    and "remote_stories w story_gid = Some story"
    and "resource_subtype story = Some ''comment_added''"
    and "html_text story = Some h" and "sublist g h"
    and "strip (asana_html_to_markdown md h) \<noteq> []"
    and "task_gid = (if truthy parent_gid then the parent_gid
                     else (case target story of None \<Rightarrow> [] | Some t \<Rightarrow> gid t))"
    and "task_gid \<noteq> []"
    and "fst (get_conversation_for_task task_gid (like story_gid w)) = None"
    and "remote_tasks w task_gid = None \<or> remote_task_stories w task_gid = None"
  shows "(case new_conversation w (length (conversations_created w)) of
            None \<Rightarrow>
              fst (process_story_mention md story_gid parent_gid w) = None
              \<and> conversations_created (snd (process_story_mention md story_gid parent_gid w))
                  = conversations_created w
          | Some (cid, sess) \<Rightarrow>
              fst (process_story_mention md story_gid parent_gid w) = Some cid
              \<and> conversations_created (snd (process_story_mention md story_gid parent_gid w))
                  = conversations_created w
                    @ [(cid, clean_asana_comment (asana_html_to_markdown md h))])"
proof -
  let ?text = "asana_html_to_markdown md h"
  obtain w2 where g: "get_conversation_for_task task_gid (like story_gid w) = (None, w2)"
    using assms(11) by (cases "get_conversation_for_task task_gid (like story_gid w)") simp
  from get_conversation_for_task_frame [OF g]
  have fr: "conversations_created w2 = conversations_created w"
    "new_conversation w2 = new_conversation w"
    "remote_tasks w2 = remote_tasks w" "remote_task_stories w2 = remote_task_stories w"
    by (simp_all add: like_def)
  have g0: "h \<noteq> []" using assms(3,7) by auto
  have p: "process_story_mention md story_gid parent_gid w
             = mention_with_task md st story_gid task_gid ?text w"
    using assms(1-10) g0
    by (auto simp: process_story_mention_def Let_def truthy_def split: option.splits)
  obtain r w4 where c: "create_asana_conversation (clean_asana_comment ?text) (Some task_gid)
                          (Some (access_token st)) w2 = (r, w4)"
    by (cases "create_asana_conversation (clean_asana_comment ?text) (Some task_gid)
                 (Some (access_token st)) w2") blast
  have msg: "(case remote_tasks w2 task_gid of
                None \<Rightarrow> clean_asana_comment ?text
              | Some task \<Rightarrow>
                  (case remote_task_stories w2 task_gid of
                     None \<Rightarrow> clean_asana_comment ?text
                   | Some all_stories \<Rightarrow>
                       build_task_message_with_question md task (clean_asana_comment ?text)
                         (filter (\<lambda>s. resource_subtype s = Some ''comment_added''
                                       \<and> gid s \<noteq> story_gid) all_stories)))
             = clean_asana_comment ?text"
    using assms(12) fr by (auto split: option.splits)
  have m: "mention_with_task md st story_gid task_gid ?text w
             = (case r of Inl e \<Rightarrow> (None, w4)
                | Inr cid \<Rightarrow> (Some cid, set_conversation_for_task task_gid cid w4))"
    using g c msg
    by (simp add: mention_with_task_def Let_def truthy_def split: sum.splits)
  from create_asana_conversation_outcome [OF c] fr
  show ?thesis
    unfolding p m by (auto split: option.splits sum.splits)
qed

definition mention_world :: world where
  "mention_world =
     base_world\<lparr>remote_stories := [''S1'' \<mapsto> example_story ''12345 please fix''],
                new_conversation := (\<lambda>n. Some (''conv1'', None))\<rparr>"

text \<open>
  Claim C8, as stated, fails: the task \<open>T1\<close> cannot be fetched and has no mapped
  conversation, yet the mention creates the conversation \<open>conv1\<close>.
\<close>

theorem mention_fetch_failure_counterexample:
  "remote_tasks mention_world ''T1'' = None
   \<and> fst (get_conversation_for_task ''T1'' mention_world) = None
   \<and> fst (process_story_mention (\<lambda>s. s) ''S1'' None mention_world) = Some ''conv1''
   \<and> conversations_created (snd (process_story_mention (\<lambda>s. s) ''S1'' None mention_world))
       = [(''conv1'', ''12345 please fix'')]"
  by code_simp

theorem mention_fetch_failure_falls_back_witness:
  "fst (process_story_mention (\<lambda>s. s) ''S1'' None mention_world) = Some ''conv1''
   \<and> conversations_created (snd (process_story_mention (\<lambda>s. s) ''S1'' None mention_world))
       = [(''conv1'', ''12345 please fix'')]"
proof -
  let ?st = "\<lparr>access_token = ''token'', workspace_gid = None,
              project_gid = None, agent_user_gid = Some ''12345''\<rparr>"
  have a1: "loaded_settings mention_world = Some ?st"
    by (simp add: mention_world_def base_world_def)
  have a2: "agent_user_gid ?st = Some ''12345''" by simp
  have a3: "remote_stories mention_world ''S1'' = Some (example_story ''12345 please fix'')"
    by (simp add: mention_world_def)
  have a4: "resource_subtype (example_story ''12345 please fix'') = Some ''comment_added''"
    by (simp add: example_story_def)
  have a5: "html_text (example_story ''12345 please fix'') = Some ''12345 please fix''"
    by (simp add: example_story_def)
  have a6: "sublist ''12345'' ''12345 please fix''" by code_simp
  have md: "asana_html_to_markdown (\<lambda>s. s) ''12345 please fix'' = ''12345 please fix''"
    by code_simp
  have a7: "strip (asana_html_to_markdown (\<lambda>s. s) ''12345 please fix'') \<noteq> []"
    unfolding md by code_simp
  have a8: "''T1'' = (if truthy None then the None
                      else (case target (example_story ''12345 please fix'') of
                              None \<Rightarrow> [] | Some t \<Rightarrow> gid t))"
    by (simp add: example_story_def truthy_def)
  have a9: "fst (get_conversation_for_task ''T1'' (like ''S1'' mention_world)) = None"
    by (simp add: get_conversation_for_task_def get_task_conversation_mapping_def like_def
        mention_world_def base_world_def truthy_def)
  have a10: "remote_tasks mention_world ''T1'' = None
             \<or> remote_task_stories mention_world ''T1'' = None"
    by (simp add: mention_world_def base_world_def)
  have cl: "clean_asana_comment ''12345 please fix'' = ''12345 please fix''"
    by code_simp
  have nc: "new_conversation mention_world n = Some (''conv1'', None)" for n
    by (simp add: mention_world_def)
  have cc: "conversations_created mention_world = []"
    by (simp add: mention_world_def base_world_def)
  show ?thesis
    using mention_fetch_failure_falls_back [OF a1 a2 _ a3 a4 a5 a6 a7 a8 _ a9 a10]
    by (simp add: nc cc md cl)
qed

subsection \<open>The mention gate is a substring test\<close>

text \<open>
  How the HTML of a comment names a mentioned user (the comment at line 463 of
  \<^verbatim>\<open>asana_service.py\<close>): the attribute \<^verbatim>\<open>data-asana-gid="GID"\<close> of the anchor.
\<close>

definition mention_attribute :: "string \<Rightarrow> string" where
  "mention_attribute g = ''data-asana-gid='' @ [dquote] @ g @ [dquote]"

text \<open>
  The agent is user 12345. The task \<open>T1\<close> and its comments can be fetched, no
  conversation is mapped to it, and the comment \<open>S1\<close> on it has the HTML text \<open>h\<close>.
\<close>

definition gate_world :: "string \<Rightarrow> world" where
  "gate_world h =
     base_world\<lparr>remote_tasks := [''T1'' \<mapsto> example_task],
                remote_stories := [''S1'' \<mapsto> example_story h],
                remote_task_stories := [''T1'' \<mapsto> [example_story h]],
                new_conversation := (\<lambda>n. Some (''conv1'', None))\<rparr>"

text \<open>
  Claim C5 (the code at a failing input). A comment whose body holds the digits 12345
  and no mention at all, and a comment that mentions user 123456 only, both pass the
  gate: \<^verbatim>\<open>agent_user_gid in story.html_text\<close> looks for the gid anywhere in the HTML
  text. A conversation is created, for the first comment with the comment as the question.
\<close>

theorem mention_gate_passes_unmentioned:
  "\<not> sublist (mention_attribute ''12345'') ''12345 please fix''
   \<and> fst (process_story_mention (\<lambda>s. s) ''S1'' None (gate_world ''12345 please fix''))
       = Some ''conv1''
   \<and> conversations_created
        (snd (process_story_mention (\<lambda>s. s) ''S1'' None (gate_world ''12345 please fix'')))
       = [(''conv1'', ''---'' @ [nl, nl] @ ''## Question'' @ [nl, nl] @ ''12345 please fix'')]
   \<and> \<not> sublist (mention_attribute ''12345'')
         (mention_anchor_text ''123456'' ''Bob'' @ '' please review'')
   \<and> fst (process_story_mention (\<lambda>s. s) ''S1'' None
        (gate_world (mention_anchor_text ''123456'' ''Bob'' @ '' please review'')))
       = Some ''conv1''
   \<and> map fst (conversations_created (snd (process_story_mention (\<lambda>s. s) ''S1'' None
        (gate_world (mention_anchor_text ''123456'' ''Bob'' @ '' please review'')))))
       = [''conv1'']"
  by code_simp

subsection \<open>The subscription race\<close>

definition race_world :: world where
  "race_world =
     base_world\<lparr>sessions := [''conv1'' \<mapsto> live_session],
                arriving_during_sleep := [AgentStateChangedObservation (Some FINISHED)]\<rparr>"

text \<open>
  Claim C7 (the code at a failing input). The agent reaches \<open>FINISHED\<close> while
  \<^verbatim>\<open>subscribe_to_conversation_events\<close> sleeps, after the callback is subscribed: the
  callback posts the result, and the catch-up scan, which does not look at the
  \<open>reported\<close> flag, posts it again. One arming, two comments.
\<close>

theorem catch_up_reports_twice:
  "comments_posted (subscribe_to_conversation_events ''conv1'' ''T1'' race_world)
     = [ResultComment ''T1'' FINISHED, ResultComment ''T1'' FINISHED]"
  by (simp add: subscribe_to_conversation_events_def race_world_def base_world_def
      live_session_def add_event_def callback_def report_to_asana_def set_reported_def
      add_comment_def TERMINAL_STATES_def Let_def)

text \<open>
  When the terminal state is the last event before the subscription and nothing arrives
  during the sleep, the scan posts one comment.
\<close>

lemma catch_up_reports_once:
  assumes "sessions w c = Some agent_session"
    and "event_stream agent_session = Some es"
    and "stream_events es = evs @ [AgentStateChangedObservation (Some s)]"
    and "s \<in> TERMINAL_STATES"
    and "arriving_during_sleep w = []"
    and "add_comment_succeeds w"
  shows "comments_posted (subscribe_to_conversation_events c t w)
           = comments_posted w @ [ResultComment t s]"
proof -
  have t: "take 50 (rev (evs @ [AgentStateChangedObservation (Some s)]))
             = AgentStateChangedObservation (Some s) # take 49 (rev evs)"
    by simp
  show ?thesis
    using assms
    by (simp add: subscribe_to_conversation_events_def Let_def t report_to_asana_def
        set_reported_def add_comment_def split: option.splits)
qed

end
